theory Spec2Isabelle
  imports Complex_Main "HOL-Library.Multiset" "HOL-Library.Word"
begin

section \<open>JavaScript values\<close>

text \<open>
  A JavaScript number. The finite doubles are embedded in the reals (the two zeros are one
  value); the handlers only compare numbers and look at the sign of a difference, and both
  agree with the exact real result on finite doubles.
\<close>

datatype jsnum = NaN | NegInf | Fin real | PosInf

text \<open>
  A JavaScript string is a sequence of UTF-16 code units: \<open>length\<close> counts them and
  \<open>substring\<close> cuts between them. A character outside the basic plane is a surrogate
  pair, two code units. \<open>ascii\<close> gives the string of a literal of the source text.
\<close>

type_synonym code_unit = "16 word"

type_synonym jsstring = "code_unit list"

definition ascii :: "string \<Rightarrow> jsstring" where
  "ascii s = map of_char s"

definition is_high :: "code_unit \<Rightarrow> bool" where
  "is_high u = (0xD800 \<le> u \<and> u \<le> 0xDBFF)"

definition is_low :: "code_unit \<Rightarrow> bool" where
  "is_low u = (0xDC00 \<le> u \<and> u \<le> 0xDFFF)"

text \<open>
  The characters of a string as a reader counts them: Unicode code points, a high
  surrogate followed by a low one being one character.
\<close>

fun characters :: "jsstring \<Rightarrow> nat" where
  "characters [] = 0"
| "characters [u] = 1"
| "characters (u # v # us) =
     (if is_high u \<and> is_low v then Suc (characters us) else Suc (characters (v # us)))"

text \<open>
  Text written as UTF-8 and read back: UTF-8 has no encoding for a surrogate that is not
  part of a pair, and U+FFFD is written in its place.
\<close>

fun to_well_formed :: "jsstring \<Rightarrow> jsstring" where
  "to_well_formed [] = []"
| "to_well_formed [u] = [if is_high u \<or> is_low u then 0xFFFD else u]"
| "to_well_formed (u # v # us) =
     (if is_high u \<and> is_low v then u # v # to_well_formed us
      else (if is_high u \<or> is_low u then 0xFFFD else u) # to_well_formed (v # us))"

text \<open>The values a parsed JSON request body is made of, and \<open>undefined\<close>.\<close>

datatype jsval =
    JUndefined
  | JNull
  | JBool bool
  | JNumber jsnum
  | JString jsstring
  | JArray "jsval list"
  | JObject "(jsstring \<times> jsval) list"

datatype js_error = TypeError | ValidationError | MongoError | HeadersSent | SyntaxError

text \<open>\<open>a - b\<close> on numbers; only its sign is used, by the comparator of \<open>sort\<close>.\<close>

fun js_minus :: "jsnum \<Rightarrow> jsnum \<Rightarrow> jsnum" where
  "js_minus NaN b = NaN"
| "js_minus a NaN = NaN"
| "js_minus PosInf PosInf = NaN"
| "js_minus NegInf NegInf = NaN"
| "js_minus PosInf b = PosInf"
| "js_minus NegInf b = NegInf"
| "js_minus a PosInf = NegInf"
| "js_minus a NegInf = PosInf"
| "js_minus (Fin x) (Fin y) = Fin (x - y)"

text \<open>\<open>v > 0\<close>: false for \<open>NaN\<close>.\<close>

fun is_pos :: "jsnum \<Rightarrow> bool" where
  "is_pos PosInf = True"
| "is_pos (Fin x) = (0 < x)"
| "is_pos v = False"

text \<open>\<open>a <= b\<close> on numbers: false as soon as one side is \<open>NaN\<close>.\<close>

fun js_le :: "jsnum \<Rightarrow> jsnum \<Rightarrow> bool" where
  "js_le NaN b = False"
| "js_le a NaN = False"
| "js_le NegInf b = True"
| "js_le a PosInf = True"
| "js_le PosInf b = False"
| "js_le a NegInf = False"
| "js_le (Fin x) (Fin y) = (x \<le> y)"

text \<open>\<open>ToBoolean\<close>, which \<open>!v\<close> and \<open>v || w\<close> apply.\<close>

fun truthy :: "jsval \<Rightarrow> bool" where
  "truthy JUndefined = False"
| "truthy JNull = False"
| "truthy (JBool b) = b"
| "truthy (JNumber n) = (n \<noteq> NaN \<and> n \<noteq> Fin 0)"
| "truthy (JString s) = (s \<noteq> [])"
| "truthy (JArray xs) = True"
| "truthy (JObject kvs) = True"

definition js_or :: "jsval \<Rightarrow> jsval \<Rightarrow> jsval" where
  "js_or a b = (if truthy a then a else b)"

text \<open>
  Reading one of the properties \<open>name\<close>, \<open>time\<close>, \<open>accuracy\<close> of a value that is neither
  \<open>undefined\<close> nor \<open>null\<close>: an object gives the value stored under the key (the first
  binding of the key in the list), \<open>undefined\<close> when it has none; arrays and primitives
  have no such property.
\<close>

fun field :: "jsval \<Rightarrow> string \<Rightarrow> jsval" where
  "field (JObject kvs) k = (case map_of kvs (ascii k) of Some v \<Rightarrow> v | None \<Rightarrow> JUndefined)"
| "field v k = JUndefined"

text \<open>
  \<open>v.substring(0, 20)\<close>: the first twenty code units of a string. On every other truthy
  value the property \<open>substring\<close> is not a function and the call throws a TypeError.
\<close>

fun substring_0_20 :: "jsval \<Rightarrow> js_error + jsstring" where
  "substring_0_20 (JString s) = Inr (take 20 s)"
| "substring_0_20 v = Inl TypeError"

section \<open>The environment of one request\<close>

text \<open>
  What a handler reads from outside the program while it serves one request: the connection
  state of mongoose (\<open>readyState\<close>), the clock as \<open>Date.now()\<close> and as an ISO string, the
  result of \<open>parseFloat\<close> on text and of mongoose's number cast on a value that is not a
  number, whether the store fails the calls of this request, the identifier the store
  gives a new document, and whether \<open>NODE_ENV\<close> is \<open>production\<close>.
\<close>

record env =
  readyState :: nat
  now :: int
  isoNow :: string
  parseFloatText :: "jsval \<Rightarrow> jsnum"
  castNumber :: "jsval \<Rightarrow> jsnum option"
  storeFault :: bool
  objectId :: nat
  production :: bool

text \<open>
  \<open>ToString(v)\<close> on a value parsed from JSON throws a TypeError exactly when it meets an
  object with a key \<open>toString\<close> of its own: the value under it is not a function, and the
  inherited \<open>valueOf\<close> returns the object. An object without that key prints as
  \<open>[object Object]\<close>; an array prints its elements, joined by commas.
\<close>

fun printable :: "jsval \<Rightarrow> bool" where
  "printable (JObject kvs) = (map_of kvs (ascii ''toString'') = None)"
| "printable (JArray xs) = list_all printable xs"
| "printable v = True"

text \<open>
  \<open>parseFloat(v)\<close> converts its argument to a string and parses the longest numeric
  prefix. A number prints and parses back to itself; \<open>true\<close>, \<open>false\<close>, \<open>null\<close>,
  \<open>undefined\<close> and \<open>[object Object]\<close> have no numeric prefix, nor has a string holding
  no decimal digit and no letter \<open>I\<close> (of \<open>Infinity\<close>). The result on the remaining
  strings and on arrays is the environment's.
\<close>

definition is_digit :: "code_unit \<Rightarrow> bool" where
  "is_digit u = (u \<in> set (ascii ''0123456789''))"

fun parseFloat :: "env \<Rightarrow> jsval \<Rightarrow> js_error + jsnum" where
  "parseFloat e (JNumber n) = Inr n"
| "parseFloat e (JString s) =
     Inr (if list_ex (\<lambda>u. is_digit u \<or> u = of_char CHR ''I'') s then parseFloatText e (JString s)
          else NaN)"
| "parseFloat e (JArray xs) =
     (if printable (JArray xs) then Inr (parseFloatText e (JArray xs)) else Inl TypeError)"
| "parseFloat e (JObject kvs) =
     (if printable (JObject kvs) then Inr NaN else Inl TypeError)"
| "parseFloat e v = Inr NaN"

section \<open>Array methods\<close>

text \<open>
  \<open>xs.sort(cmp)\<close>. The language requires the sort to be stable and reads a \<open>NaN\<close> result
  of the comparator as \<open>0\<close>. For a consistent comparator the result is thereby fixed, and
  the insertion sort below computes it; for an inconsistent one (a \<open>NaN\<close> key) the order
  is left to the implementation, and the model keeps the order this insertion gives, which
  an engine need not share.
\<close>

fun insert_by :: "('a \<Rightarrow> 'a \<Rightarrow> jsnum) \<Rightarrow> 'a \<Rightarrow> 'a list \<Rightarrow> 'a list" where
  "insert_by cmp x [] = [x]"
| "insert_by cmp x (y # ys) =
     (if is_pos (cmp x y) then y # insert_by cmp x ys else x # y # ys)"

fun js_sort :: "('a \<Rightarrow> 'a \<Rightarrow> jsnum) \<Rightarrow> 'a list \<Rightarrow> 'a list" where
  "js_sort cmp [] = []"
| "js_sort cmp (x # xs) = insert_by cmp x (js_sort cmp xs)"

text \<open>\<open>xs.findIndex(p)\<close>: the index of the first element satisfying \<open>p\<close>, or \<open>-1\<close>.\<close>

fun findIndex :: "('a \<Rightarrow> bool) \<Rightarrow> 'a list \<Rightarrow> int" where
  "findIndex p [] = - 1"
| "findIndex p (x # xs) =
     (if p x then 0 else (let i = findIndex p xs in if i < 0 then - 1 else i + 1))"

section \<open>Score records and the two stores\<close>

text \<open>A record of the in-memory leaderboard (\<open>scoreData\<close> in the handler).\<close>

record score =
  id' :: int
  name :: jsstring
  time :: jsnum
  accuracy :: jsval
  date :: string

text \<open>A document of the \<open>Score\<close> collection, typed by \<open>scoreSchema\<close>.\<close>

record doc =
  oid :: nat
  doc_name :: jsstring
  doc_time :: jsnum
  doc_accuracy :: jsnum
  doc_date :: int

record server =
  memoryLeaderboard :: "score list"
  scores :: "doc list"

text \<open>
  \<open>new Score({name, time, accuracy}).save()\<close> under \<open>scoreSchema\<close>. The handler always
  passes a string as \<open>name\<close> and a number as \<open>time\<close>; mongoose refuses \<open>NaN\<close> on a Number
  path, keeps any other number, and casts a value of another type (the environment's
  \<open>castNumber\<close>). A refused document, or a failing store, makes \<open>save\<close> throw. Otherwise
  \<open>save\<close> returns the document as the program holds it, and the collection gains it with
  its text as the driver writes it, in UTF-8.
\<close>

definition cast_accuracy :: "env \<Rightarrow> jsval \<Rightarrow> jsnum option" where
  "cast_accuracy e v =
     (case v of
        JNumber n \<Rightarrow> (if n = NaN then None else Some n)
      | _ \<Rightarrow> castNumber e v)"

definition save :: "env \<Rightarrow> doc list \<Rightarrow> jsstring \<Rightarrow> jsnum \<Rightarrow> jsval \<Rightarrow> js_error + (doc list \<times> doc)" where
  "save e db nm t acc =
     (if t = NaN then Inl ValidationError
      else case cast_accuracy e acc of
        None \<Rightarrow> Inl ValidationError
      | Some a \<Rightarrow>
          if storeFault e then Inl MongoError
          else let d = \<lparr>oid = objectId e, doc_name = nm, doc_time = t,
                         doc_accuracy = a, doc_date = now e\<rparr>
               in Inr (db @ [d\<lparr>doc_name := to_well_formed nm\<rparr>], d))"

text \<open>
  \<open>Score.find().sort({time: 1}).limit(n)\<close>, \<open>Score.countDocuments()\<close> and
  \<open>Score.deleteMany({})\<close>. The store orders \<open>NaN\<close> before every other number.
\<close>

definition mongo_cmp :: "jsnum \<Rightarrow> jsnum \<Rightarrow> jsnum" where
  "mongo_cmp a b =
     (if a = NaN then (if b = NaN then Fin 0 else NegInf)
      else if b = NaN then PosInf
      else js_minus a b)"

definition find_sort_limit :: "env \<Rightarrow> doc list \<Rightarrow> nat \<Rightarrow> js_error + doc list" where
  "find_sort_limit e db n =
     (if storeFault e then Inl MongoError
      else Inr (take n (js_sort (\<lambda>a b. mongo_cmp (doc_time a) (doc_time b)) db)))"

definition countDocuments :: "env \<Rightarrow> doc list \<Rightarrow> js_error + nat" where
  "countDocuments e db = (if storeFault e then Inl MongoError else Inr (length db))"

definition deleteMany :: "env \<Rightarrow> doc list \<Rightarrow> js_error + doc list" where
  "deleteMany e db = (if storeFault e then Inl MongoError else Inr [])"

section \<open>Responses\<close>

datatype storage = mongodb | memory

text \<open>The two messages of a leaderboard read: no records yet, and loaded.\<close>

datatype message = NoRecordsYet | LoadedOk

text \<open>
  The JSON bodies the three handlers and the error handler send, one constructor per
  shape; the string of a constructor is its \<open>timestamp\<close>, and the flag of \<open>ServerError\<close>
  tells whether the body carries the \<open>stack\<close>.
\<close>

datatype json_body =
    MissingParams "string list" jsval
  | ScoreSaved doc string
  | ScoreRecorded score "storage option" int nat
  | SubmitFailed js_error string
  | LeaderboardMongo "doc list" nat string message
  | LeaderboardMemory "score list" nat string message
  | LoadFailed js_error string
  | Cleared storage string
  | ClearFailed js_error string
  | ServerError js_error string bool

record response =
  status :: nat
  json :: json_body

section \<open>The handlers of server.js\<close>

text \<open>
  A handler maps the environment, the state and the request to the new state and either
  the response it sent (\<open>Inr\<close>) or the exception that left it (\<open>Inl\<close>). The \<open>_try\<close>
  function is the body of the handler's \<open>try\<close> block, the handler adds its \<open>catch\<close>.
\<close>

definition post_api_score_try :: "env \<Rightarrow> server \<Rightarrow> jsval \<Rightarrow> server \<times> (js_error + response)" where
  "post_api_score_try e st body =
     (if body = JUndefined \<or> body = JNull then (st, Inl TypeError)
      else
        let name0 = field body ''name'';
            time0 = field body ''time'';
            accuracy0 = field body ''accuracy''
        in
        if \<not> truthy name0 \<or> \<not> truthy time0 then
          (st, Inr \<lparr>status = 400, json = MissingParams [''name'', ''time''] body\<rparr>)
        else if readyState e = 1 then
          (case substring_0_20 name0 of
             Inl err \<Rightarrow> (st, Inl err)
           | Inr nm \<Rightarrow>
               (case parseFloat e time0 of
                  Inl err \<Rightarrow> (st, Inl err)
                | Inr t \<Rightarrow>
                    (case save e (scores st) nm t (js_or accuracy0 (JNumber (Fin 100))) of
                       Inl err \<Rightarrow> (st, Inl err)
                     | Inr (db, savedScore) \<Rightarrow>
                         (st\<lparr>scores := db\<rparr>,
                          Inr \<lparr>status = 201, json = ScoreSaved savedScore (isoNow e)\<rparr>))))
        else
          (case substring_0_20 name0 of
             Inl err \<Rightarrow> (st, Inl err)
           | Inr nm \<Rightarrow>
               (case parseFloat e time0 of
                  Inl err \<Rightarrow> (st, Inl err)
                | Inr t \<Rightarrow>
                    let scoreData = \<lparr>id' = now e, name = nm, time = t,
                                      accuracy = js_or accuracy0 (JNumber (Fin 100)),
                                      date = isoNow e\<rparr>;
                        pushed = memoryLeaderboard st @ [scoreData];
                        sorted = js_sort (\<lambda>a b. js_minus (time a) (time b)) pushed;
                        trimmed = (if length sorted > 50 then take 50 sorted else sorted)
                    in (st\<lparr>memoryLeaderboard := trimmed\<rparr>,
                        Inr \<lparr>status = 201,
                             json = ScoreRecorded scoreData (Some memory)
                                      (findIndex (\<lambda>s. id' s = id' scoreData) trimmed + 1)
                                      (length trimmed)\<rparr>))))"

definition post_api_score :: "env \<Rightarrow> server \<Rightarrow> jsval \<Rightarrow> server \<times> (js_error + response)" where
  "post_api_score e st body =
     (case post_api_score_try e st body of
        (st', Inl err) \<Rightarrow> (st', Inr \<lparr>status = 500, json = SubmitFailed err (isoNow e)\<rparr>)
      | (st', Inr r) \<Rightarrow> (st', Inr r))"

definition get_api_leaderboard_try :: "env \<Rightarrow> server \<Rightarrow> server \<times> (js_error + response)" where
  "get_api_leaderboard_try e st =
     (if readyState e = 1 then
        (case find_sort_limit e (scores st) 20 of
           Inl err \<Rightarrow> (st, Inl err)
         | Inr found \<Rightarrow>
             (case countDocuments e (scores st) of
                Inl err \<Rightarrow> (st, Inl err)
              | Inr n \<Rightarrow>
                  (st, Inr \<lparr>status = 200,
                            json = LeaderboardMongo found n (isoNow e)
                                     (if length found = 0 then NoRecordsYet else LoadedOk)\<rparr>)))
      else
        (st, Inr \<lparr>status = 200,
                  json = LeaderboardMemory (take 20 (memoryLeaderboard st))
                           (length (memoryLeaderboard st)) (isoNow e)
                           (if length (memoryLeaderboard st) = 0 then NoRecordsYet
                            else LoadedOk)\<rparr>))"

definition get_api_leaderboard :: "env \<Rightarrow> server \<Rightarrow> server \<times> (js_error + response)" where
  "get_api_leaderboard e st =
     (case get_api_leaderboard_try e st of
        (st', Inl err) \<Rightarrow> (st', Inr \<lparr>status = 500, json = LoadFailed err (isoNow e)\<rparr>)
      | (st', Inr r) \<Rightarrow> (st', Inr r))"

definition delete_api_leaderboard_try :: "env \<Rightarrow> server \<Rightarrow> server \<times> (js_error + response)" where
  "delete_api_leaderboard_try e st =
     (if readyState e = 1 then
        (case deleteMany e (scores st) of
           Inl err \<Rightarrow> (st, Inl err)
         | Inr db \<Rightarrow>
             (st\<lparr>scores := db\<rparr>, Inr \<lparr>status = 200, json = Cleared mongodb (isoNow e)\<rparr>))
      else
        (st\<lparr>memoryLeaderboard := []\<rparr>,
         Inr \<lparr>status = 200, json = Cleared memory (isoNow e)\<rparr>))"

definition delete_api_leaderboard :: "env \<Rightarrow> server \<Rightarrow> server \<times> (js_error + response)" where
  "delete_api_leaderboard e st =
     (case delete_api_leaderboard_try e st of
        (st', Inl err) \<Rightarrow> (st', Inr \<lparr>status = 500, json = ClearFailed err (isoNow e)\<rparr>)
      | (st', Inr r) \<Rightarrow> (st', Inr r))"

section \<open>The submission handler of the memory-only server file\<close>

text \<open>
  The same submission handler as it stands in the server file that has no database: its
  state is the list \<open>leaderboard\<close> alone, and its answer carries no \<open>storage\<close> tag.
\<close>

definition post_api_score_memonly_try ::
    "env \<Rightarrow> score list \<Rightarrow> jsval \<Rightarrow> score list \<times> (js_error + response)" where
  "post_api_score_memonly_try e leaderboard body =
     (if body = JUndefined \<or> body = JNull then (leaderboard, Inl TypeError)
      else
        let name0 = field body ''name'';
            time0 = field body ''time'';
            accuracy0 = field body ''accuracy''
        in
        if \<not> truthy name0 \<or> \<not> truthy time0 then
          (leaderboard, Inr \<lparr>status = 400, json = MissingParams [''name'', ''time''] body\<rparr>)
        else
          (case substring_0_20 name0 of
             Inl err \<Rightarrow> (leaderboard, Inl err)
           | Inr nm \<Rightarrow>
               (case parseFloat e time0 of
                  Inl err \<Rightarrow> (leaderboard, Inl err)
                | Inr t \<Rightarrow>
                    let scoreData = \<lparr>id' = now e, name = nm, time = t,
                                      accuracy = js_or accuracy0 (JNumber (Fin 100)),
                                      date = isoNow e\<rparr>;
                        pushed = leaderboard @ [scoreData];
                        sorted = js_sort (\<lambda>a b. js_minus (time a) (time b)) pushed;
                        trimmed = (if length sorted > 50 then take 50 sorted else sorted)
                    in (trimmed,
                        Inr \<lparr>status = 201,
                             json = ScoreRecorded scoreData None
                                      (findIndex (\<lambda>s. id' s = id' scoreData) trimmed + 1)
                                      (length trimmed)\<rparr>))))"

definition post_api_score_memonly ::
    "env \<Rightarrow> score list \<Rightarrow> jsval \<Rightarrow> score list \<times> (js_error + response)" where
  "post_api_score_memonly e leaderboard body =
     (case post_api_score_memonly_try e leaderboard body of
        (lb, Inl err) \<Rightarrow> (lb, Inr \<lparr>status = 500, json = SubmitFailed err (isoNow e)\<rparr>)
      | (lb, Inr r) \<Rightarrow> (lb, Inr r))"

section \<open>The handlers as Express runs them\<close>

text \<open>
  The same three handlers once more, statement by statement, with the response object
  explicit. A piece of handler code is run on the server state and the response sent so
  far (none at first); it returns a value or throws, and leaves the state and the
  response as they are at that moment.
\<close>

type_synonym world = "server \<times> response option"

type_synonym 'a js = "world \<Rightarrow> (js_error + 'a) \<times> world"

definition js_return :: "'a \<Rightarrow> 'a js" where
  "js_return a = (\<lambda>w. (Inr a, w))"

definition js_throw :: "js_error \<Rightarrow> 'a js" where
  "js_throw err = (\<lambda>w. (Inl err, w))"

definition js_bind :: "'a js \<Rightarrow> ('a \<Rightarrow> 'b js) \<Rightarrow> 'b js" where
  "js_bind m f = (\<lambda>w. case m w of (Inl err, w') \<Rightarrow> (Inl err, w') | (Inr a, w') \<Rightarrow> f a w')"

text \<open>\<open>try { m } catch (error) { h error }\<close>.\<close>

definition js_try :: "'a js \<Rightarrow> (js_error \<Rightarrow> 'a js) \<Rightarrow> 'a js" where
  "js_try m h = (\<lambda>w. case m w of (Inl err, w') \<Rightarrow> h err w' | (Inr a, w') \<Rightarrow> (Inr a, w'))"

text \<open>A computation that touches neither the state nor the response.\<close>

definition js_lift :: "js_error + 'a \<Rightarrow> 'a js" where
  "js_lift x = (case x of Inl err \<Rightarrow> js_throw err | Inr a \<Rightarrow> js_return a)"

definition js_get :: "server js" where
  "js_get = (\<lambda>(st, res). (Inr st, (st, res)))"

definition js_put :: "server \<Rightarrow> unit js" where
  "js_put st = (\<lambda>(old, res). (Inr (), (st, res)))"

text \<open>
  \<open>res.status(code).json(body)\<close>, and \<open>res.json(body)\<close> with the code 200: the response is
  sent, unless one was sent before; then setting the headers throws.
\<close>

definition res_json :: "nat \<Rightarrow> json_body \<Rightarrow> unit js" where
  "res_json code b =
     (\<lambda>(st, res). case res of
        None \<Rightarrow> (Inr (), (st, Some \<lparr>status = code, json = b\<rparr>))
      | Some r \<Rightarrow> (Inl HeadersSent, (st, res)))"

definition app_post_score_try :: "env \<Rightarrow> jsval \<Rightarrow> unit js" where
  "app_post_score_try e body =
     (if body = JUndefined \<or> body = JNull then js_throw TypeError
      else
        let name0 = field body ''name'';
            time0 = field body ''time'';
            accuracy0 = field body ''accuracy''
        in
        if \<not> truthy name0 \<or> \<not> truthy time0 then
          res_json 400 (MissingParams [''name'', ''time''] body)
        else if readyState e = 1 then
          js_bind (js_lift (substring_0_20 name0)) (\<lambda>nm.
          js_bind (js_lift (parseFloat e time0)) (\<lambda>t.
          js_bind js_get (\<lambda>st.
          js_bind (js_lift (save e (scores st) nm t (js_or accuracy0 (JNumber (Fin 100)))))
            (\<lambda>(db, savedScore).
          js_bind (js_put (st\<lparr>scores := db\<rparr>)) (\<lambda>u.
          res_json 201 (ScoreSaved savedScore (isoNow e)))))))
        else
          js_bind (js_lift (substring_0_20 name0)) (\<lambda>nm.
          js_bind (js_lift (parseFloat e time0)) (\<lambda>t.
          js_bind js_get (\<lambda>st.
            let scoreData = \<lparr>id' = now e, name = nm, time = t,
                              accuracy = js_or accuracy0 (JNumber (Fin 100)),
                              date = isoNow e\<rparr>;
                pushed = memoryLeaderboard st @ [scoreData];
                sorted = js_sort (\<lambda>a b. js_minus (time a) (time b)) pushed;
                trimmed = (if length sorted > 50 then take 50 sorted else sorted)
            in
            js_bind (js_put (st\<lparr>memoryLeaderboard := trimmed\<rparr>)) (\<lambda>u.
            res_json 201
              (ScoreRecorded scoreData (Some memory)
                 (findIndex (\<lambda>s. id' s = id' scoreData) trimmed + 1)
                 (length trimmed)))))))"

definition app_post_score :: "env \<Rightarrow> jsval \<Rightarrow> unit js" where
  "app_post_score e body =
     js_try (app_post_score_try e body)
       (\<lambda>error. res_json 500 (SubmitFailed error (isoNow e)))"

definition app_get_leaderboard_try :: "env \<Rightarrow> unit js" where
  "app_get_leaderboard_try e =
     (if readyState e = 1 then
        js_bind js_get (\<lambda>st.
        js_bind (js_lift (find_sort_limit e (scores st) 20)) (\<lambda>found.
        js_bind (js_lift (countDocuments e (scores st))) (\<lambda>n.
        res_json 200
          (LeaderboardMongo found n (isoNow e)
             (if length found = 0 then NoRecordsYet else LoadedOk)))))
      else
        js_bind js_get (\<lambda>st.
        res_json 200
          (LeaderboardMemory (take 20 (memoryLeaderboard st))
             (length (memoryLeaderboard st)) (isoNow e)
             (if length (memoryLeaderboard st) = 0 then NoRecordsYet else LoadedOk))))"

definition app_get_leaderboard :: "env \<Rightarrow> unit js" where
  "app_get_leaderboard e =
     js_try (app_get_leaderboard_try e)
       (\<lambda>error. res_json 500 (LoadFailed error (isoNow e)))"

definition app_delete_leaderboard_try :: "env \<Rightarrow> unit js" where
  "app_delete_leaderboard_try e =
     (if readyState e = 1 then
        js_bind js_get (\<lambda>st.
        js_bind (js_lift (deleteMany e (scores st))) (\<lambda>db.
        js_bind (js_put (st\<lparr>scores := db\<rparr>)) (\<lambda>u.
        res_json 200 (Cleared mongodb (isoNow e)))))
      else
        js_bind js_get (\<lambda>st.
        js_bind (js_put (st\<lparr>memoryLeaderboard := []\<rparr>)) (\<lambda>u.
        res_json 200 (Cleared memory (isoNow e)))))"

definition app_delete_leaderboard :: "env \<Rightarrow> unit js" where
  "app_delete_leaderboard e =
     js_try (app_delete_leaderboard_try e)
       (\<lambda>error. res_json 500 (ClearFailed error (isoNow e)))"

text \<open>
  The error-handling middleware registered last: it answers 500 with the error's message,
  and with its stack unless in production.
\<close>

definition error_middleware :: "env \<Rightarrow> js_error \<Rightarrow> unit js" where
  "error_middleware e err = res_json 500 (ServerError err (isoNow e) (\<not> production e))"

text \<open>
  A request to one of the three endpoints, with what \<open>express.json()\<close> makes of its body:
  the parsed value (\<open>{}\<close> or \<open>undefined\<close> when there is none), or a syntax error.
\<close>

datatype endpoint = PostScore | GetLeaderboard | DeleteLeaderboard

datatype payload = Malformed | Parsed jsval

definition express_json :: "payload \<Rightarrow> jsval js" where
  "express_json p = (case p of Malformed \<Rightarrow> js_throw SyntaxError | Parsed body \<Rightarrow> js_return body)"

definition route :: "env \<Rightarrow> endpoint \<Rightarrow> jsval \<Rightarrow> unit js" where
  "route e ep body =
     (case ep of
        PostScore \<Rightarrow> app_post_score e body
      | GetLeaderboard \<Rightarrow> app_get_leaderboard e
      | DeleteLeaderboard \<Rightarrow> app_delete_leaderboard e)"

text \<open>
  What becomes of a request. The middleware before the routes sends nothing for these
  paths, so the response object reaches the handler fresh. An error of the body parser is
  passed to the error-handling middleware. The handlers are \<open>async\<close> functions: an
  exception that leaves one is a rejected promise that nothing handles, which ends the
  process; a handler that returns without a response leaves the request unanswered.
\<close>

datatype outcome = Answered response | Unanswered | Crashed js_error

definition finish :: "(js_error + unit) \<times> world \<Rightarrow> server \<times> outcome" where
  "finish x =
     (case x of
        (Inl err, (st, res)) \<Rightarrow> (st, Crashed err)
      | (Inr u, (st, None)) \<Rightarrow> (st, Unanswered)
      | (Inr u, (st, Some r)) \<Rightarrow> (st, Answered r))"

definition app :: "env \<Rightarrow> endpoint \<Rightarrow> payload \<Rightarrow> server \<Rightarrow> server \<times> outcome" where
  "app e ep p st =
     (case express_json p (st, None) of
        (Inl err, w) \<Rightarrow> finish (error_middleware e err w)
      | (Inr body, w) \<Rightarrow> finish (route e ep body w))"

section \<open>Serving a sequence of submissions\<close>

text \<open>
  The server handles one request after the other; the memory branch of the submission
  handler never awaits, so it runs to its end before the next request is looked at.
  \<open>serve_scores\<close> feeds a list of submissions, each with its environment, to the handler
  and collects what every call sent back.
\<close>

fun serve_scores :: "server \<Rightarrow> (env \<times> jsval) list \<Rightarrow> server \<times> (js_error + response) list" where
  "serve_scores st [] = (st, [])"
| "serve_scores st ((e, body) # reqs) =
     (case post_api_score e st body of
        (st1, out) \<Rightarrow> (case serve_scores st1 reqs of (st2, outs) \<Rightarrow> (st2, out # outs)))"

text \<open>The records the memory branch created, read off the answers in the order sent.\<close>

fun recorded :: "(js_error + response) list \<Rightarrow> score list" where
  "recorded [] = []"
| "recorded (Inl err # outs) = recorded outs"
| "recorded (Inr r # outs) =
     (case json r of
        ScoreRecorded d tag rank n \<Rightarrow> d # recorded outs
      | _ \<Rightarrow> recorded outs)"

text \<open>Ascending by time, with the comparison \<open><=\<close> of the language.\<close>

definition sorted_by_time :: "score list \<Rightarrow> bool" where
  "sorted_by_time xs = sorted_wrt (\<lambda>a b. js_le (time a) (time b)) xs"

text \<open>The comparator the handler passes to \<open>sort\<close>.\<close>

abbreviation by_time :: "score \<Rightarrow> score \<Rightarrow> jsnum" where
  "by_time \<equiv> (\<lambda>a b. js_minus (time a) (time b))"

section \<open>Sample environments and requests\<close>

text \<open>
  Environments for the examples: the store not connected at clock \<open>t\<close>, and the store
  connected and answering. No example passes text holding a digit or an array as \<open>time\<close>,
  nor a value other than a number as \<open>accuracy\<close>, so the two library functions of these
  environments are never consulted.
\<close>

definition offline :: "int \<Rightarrow> env" where
  "offline t = \<lparr>readyState = 0, now = t, isoNow = ''T'', parseFloatText = (\<lambda>v. NaN),
                castNumber = (\<lambda>v. None), storeFault = False, objectId = 0,
                production = False\<rparr>"

definition online :: "nat \<Rightarrow> env" where
  "online k = \<lparr>readyState = 1, now = int k, isoNow = ''T'', parseFloatText = (\<lambda>v. NaN),
               castNumber = (\<lambda>v. None), storeFault = False, objectId = k,
               production = False\<rparr>"

definition empty_server :: server where
  "empty_server = \<lparr>memoryLeaderboard = [], scores = []\<rparr>"

text \<open>The body \<open>{name: nm, time: t}\<close>.\<close>

definition submission :: "string \<Rightarrow> jsval \<Rightarrow> jsval" where
  "submission nm t = JObject [(ascii ''name'', JString (ascii nm)), (ascii ''time'', t)]"

text \<open>
  Player \<open>i\<close> submits the time \<open>i\<close> at clock \<open>i\<close>; \<open>player i\<close> is the record this creates,
  and \<open>fifty_players\<close> the server after players 1 to 50 have submitted in turn.
\<close>

definition player :: "nat \<Rightarrow> score" where
  "player i = \<lparr>id' = int i, name = ascii ''p'', time = Fin (real i),
               accuracy = JNumber (Fin 100), date = ''T''\<rparr>"

definition player_request :: "nat \<Rightarrow> env \<times> jsval" where
  "player_request i = (offline (int i), submission ''p'' (JNumber (Fin (real i))))"

definition fifty_players :: server where
  "fifty_players = fst (serve_scores empty_server (map player_request [1..<51]))"

section \<open>Strings\<close>

lemma unat_of_char: "unat (of_char c :: code_unit) = of_char c"
proof -
  have "(of_char c :: nat) < 256"
    by (metis of_char_mod_256 mod_less_divisor zero_less_numeral)
  then have "(of_char c :: nat) < 2 ^ 16" by (rule less_le_trans) simp
  moreover have "(of_char c :: code_unit) = of_nat (of_char c)"
    by (simp add: of_nat_of_char)
  ultimately show ?thesis
    by (simp add: unat_of_nat)
qed

lemma of_char_unit_eq_iff [simp]: "(of_char c :: code_unit) = of_char d \<longleftrightarrow> c = d"
proof
  assume "(of_char c :: code_unit) = of_char d"
  then have "unat (of_char c :: code_unit) = unat (of_char d :: code_unit)" by simp
  then have "(of_char c :: nat) = of_char d" by (simp only: unat_of_char)
  then show "c = d" by simp
qed simp

lemma ascii_eq_iff [simp]: "ascii s = ascii t \<longleftrightarrow> s = t"
  unfolding ascii_def by (rule inj_map_eq_map) (simp add: inj_on_def)

lemma take_ascii [simp]: "take n (ascii s) = ascii (take n s)"
  by (simp add: ascii_def take_map)

lemma ascii_Nil_iff [simp]: "ascii s = [] \<longleftrightarrow> s = []"
  by (simp add: ascii_def)

lemma length_ascii [simp]: "length (ascii s) = length s"
  by (simp add: ascii_def)

lemma to_well_formed_id:
  "\<forall>u\<in>set s. \<not> is_high u \<and> \<not> is_low u \<Longrightarrow> to_well_formed s = s"
  by (induction s rule: to_well_formed.induct) auto

lemma of_char_not_surrogate: "\<not> is_high (of_char c) \<and> \<not> is_low (of_char c)"
proof -
  have "(of_char c :: nat) < 256"
    by (metis of_char_mod_256 mod_less_divisor zero_less_numeral)
  then have "unat (of_char c :: code_unit) < 256"
    by (simp only: unat_of_char)
  then have "\<not> (0xD800 :: code_unit) \<le> of_char c" and "\<not> (0xDC00 :: code_unit) \<le> of_char c"
    by (simp_all add: word_le_nat_alt)
  then show ?thesis
    by (simp add: is_high_def is_low_def)
qed

lemma to_well_formed_ascii [simp]: "to_well_formed (ascii s) = ascii s"
  by (rule to_well_formed_id) (auto simp: ascii_def of_char_not_surrogate)

section \<open>Numbers, sorting and searching\<close>

lemma js_le_trans: "js_le a b \<Longrightarrow> js_le b c \<Longrightarrow> js_le a c"
  by (cases a; cases b; cases c) auto

lemma is_pos_minus: "is_pos (js_minus a b) \<Longrightarrow> js_le b a"
  by (cases a; cases b) auto

lemma not_pos_minus: "\<not> is_pos (js_minus a b) \<Longrightarrow> a \<noteq> NaN \<Longrightarrow> b \<noteq> NaN \<Longrightarrow> js_le a b"
  by (cases a; cases b) auto

lemma js_le_not_pos: "js_le a b \<Longrightarrow> \<not> is_pos (js_minus a b)"
  by (cases a; cases b) auto

lemma mset_insert_by: "mset (insert_by cmp x ys) = add_mset x (mset ys)"
  by (induction ys) auto

lemma mset_js_sort: "mset (js_sort cmp xs) = mset xs"
  by (induction xs) (auto simp: mset_insert_by)

lemma length_js_sort: "length (js_sort cmp xs) = length xs"
  using mset_js_sort [of cmp xs] by (metis size_mset)

lemma set_js_sort: "set (js_sort cmp xs) = set xs"
  using mset_js_sort [of cmp xs] by (metis set_mset_mset)

lemma set_insert_by: "set (insert_by cmp x ys) = insert x (set ys)"
  using mset_insert_by [of cmp x ys] by (metis set_mset_mset set_mset_add_mset_insert)

lemma sorted_insert_by:
  assumes "sorted_by_time ys" and "time x \<noteq> NaN" and "\<forall>y\<in>set ys. time y \<noteq> NaN"
  shows "sorted_by_time (insert_by by_time x ys)"
  using assms
proof (induction ys)
  case Nil
  then show ?case by (simp add: sorted_by_time_def)
next
  case (Cons y ys)
  show ?case
  proof (cases "is_pos (js_minus (time x) (time y))")
    case True
    then have yx: "js_le (time y) (time x)" by (rule is_pos_minus)
    have "sorted_by_time (insert_by by_time x ys)"
      using Cons by (simp add: sorted_by_time_def)
    with Cons.prems yx True show ?thesis
      by (auto simp: sorted_by_time_def set_insert_by)
  next
    case False
    with Cons.prems have xy: "js_le (time x) (time y)"
      by (simp add: not_pos_minus)
    with Cons.prems False show ?thesis
      by (auto simp: sorted_by_time_def intro: js_le_trans)
  qed
qed

lemma sorted_js_sort:
  "\<forall>x\<in>set xs. time x \<noteq> NaN \<Longrightarrow> sorted_by_time (js_sort by_time xs)"
proof (induction xs)
  case Nil
  show ?case by (simp add: sorted_by_time_def)
next
  case (Cons x xs)
  then show ?case by (simp add: sorted_insert_by set_js_sort)
qed

lemma sorted_by_time_take: "sorted_by_time xs \<Longrightarrow> sorted_by_time (take n xs)"
  by (simp add: sorted_by_time_def)

lemma js_le_NaN: "\<not> js_le a NaN"
  by (cases a) simp_all

lemma nan_never_sorted:
  assumes "x \<in> set xs" and "time x = NaN" and "2 \<le> length xs"
  shows "\<not> sorted_by_time xs"
proof
  assume sorted: "sorted_by_time xs"
  from assms(1) obtain i where i: "i < length xs" "xs ! i = x"
    by (auto simp: in_set_conv_nth)
  from assms(3) i(1) obtain j where j: "j < length xs" "j \<noteq> i"
    by (cases "i = 0") (auto intro: that [of 1] that [of 0])
  have "js_le (time (xs ! a)) (time (xs ! b))" if "a < b" "b < length xs" for a b
    using sorted that unfolding sorted_by_time_def by (simp add: sorted_wrt_iff_nth_less)
  from this [of i j] this [of j i] i j assms(2) show False
    by (cases "i < j") (auto simp: js_le_NaN)
qed

lemma insert_by_sorted_head:
  "sorted_by_time (y # ys) \<Longrightarrow> insert_by by_time y ys = y # ys"
  by (cases ys) (auto simp: sorted_by_time_def js_le_not_pos)

lemma js_sort_append_last:
  assumes "sorted_by_time xs" and "\<forall>y\<in>set xs. js_le (time y) (time d)"
  shows "js_sort by_time (xs @ [d]) = xs @ [d]"
  using assms
proof (induction xs)
  case Nil
  then show ?case by simp
next
  case (Cons y ys)
  then have "js_sort by_time (ys @ [d]) = ys @ [d]"
    by (simp add: sorted_by_time_def)
  moreover have "sorted_by_time (y # ys @ [d])"
    using Cons.prems by (auto simp: sorted_by_time_def sorted_wrt_append)
  ultimately show ?case
    by (simp add: insert_by_sorted_head)
qed

lemma js_sort_append_first:
  assumes "sorted_by_time xs" and "\<forall>y\<in>set xs. is_pos (js_minus (time y) (time d))"
  shows "js_sort by_time (xs @ [d]) = d # xs"
  using assms
proof (induction xs)
  case Nil
  then show ?case by simp
next
  case (Cons y ys)
  then have "js_sort by_time (ys @ [d]) = d # ys"
    by (simp add: sorted_by_time_def)
  with Cons.prems show ?case
    by (simp add: insert_by_sorted_head)
qed

lemma take_sort_subset:
  "mset (take n (js_sort cmp (lb @ [d]))) \<subseteq># add_mset d (mset lb)"
proof -
  have "mset (take n (js_sort cmp (lb @ [d]))) \<subseteq># mset (js_sort cmp (lb @ [d]))"
    by (metis append_take_drop_id mset_append mset_subset_eq_add_left)
  then show ?thesis by (simp add: mset_js_sort)
qed

lemma findIndex_found:
  assumes "\<exists>x\<in>set xs. p x"
  shows "0 \<le> findIndex p xs \<and> nat (findIndex p xs) < length xs
       \<and> p (xs ! nat (findIndex p xs)) \<and> (\<forall>i<nat (findIndex p xs). \<not> p (xs ! i))"
  using assms
proof (induction xs)
  case Nil
  then show ?case by simp
next
  case (Cons x xs)
  show ?case
  proof (cases "p x")
    case True
    then show ?thesis by simp
  next
    case False
    with Cons.prems have "\<exists>x\<in>set xs. p x" by simp
    from Cons.IH [OF this] have IH: "0 \<le> findIndex p xs" "nat (findIndex p xs) < length xs"
      "p (xs ! nat (findIndex p xs))" "\<forall>i<nat (findIndex p xs). \<not> p (xs ! i)"
      by simp_all
    from IH(1) False have eq: "findIndex p (x # xs) = findIndex p xs + 1"
      by (simp add: Let_def)
    from IH(1) have n: "nat (findIndex p xs + 1) = Suc (nat (findIndex p xs))"
      by simp
    have "\<not> p ((x # xs) ! i)" if "i < Suc (nat (findIndex p xs))" for i
      using that False IH(4) by (cases i) simp_all
    with IH show ?thesis
      unfolding eq n by simp
  qed
qed


section \<open>The submission handler, case by case\<close>

lemma substring_not_string: "(\<And>s. v \<noteq> JString s) \<Longrightarrow> substring_0_20 v = Inl TypeError"
  by (cases v) auto

lemma post_nullish:
  "body = JUndefined \<or> body = JNull \<Longrightarrow>
   post_api_score e st body = (st, Inr \<lparr>status = 500, json = SubmitFailed TypeError (isoNow e)\<rparr>)"
  by (auto simp: post_api_score_def post_api_score_try_def)

lemma post_falsy:
  assumes "body \<noteq> JUndefined" and "body \<noteq> JNull"
    and "\<not> truthy (field body ''name'') \<or> \<not> truthy (field body ''time'')"
  shows "post_api_score e st body =
           (st, Inr \<lparr>status = 400, json = MissingParams [''name'', ''time''] body\<rparr>)"
  using assms by (auto simp: post_api_score_def post_api_score_try_def Let_def)

lemma post_not_string:
  assumes "body \<noteq> JUndefined" and "body \<noteq> JNull"
    and "truthy (field body ''name'')" and "truthy (field body ''time'')"
    and "\<And>s. field body ''name'' \<noteq> JString s"
  shows "post_api_score e st body =
           (st, Inr \<lparr>status = 500, json = SubmitFailed TypeError (isoNow e)\<rparr>)"
  using assms(1-4) substring_not_string [OF assms(5)]
  by (simp add: post_api_score_def post_api_score_try_def Let_def)

lemma post_unprintable:
  assumes "body \<noteq> JUndefined" and "body \<noteq> JNull"
    and "field body ''name'' = JString s" and "s \<noteq> []" and "truthy (field body ''time'')"
    and "parseFloat e (field body ''time'') = Inl err"
  shows "post_api_score e st body =
           (st, Inr \<lparr>status = 500, json = SubmitFailed err (isoNow e)\<rparr>)"
  using assms by (simp add: post_api_score_def post_api_score_try_def Let_def)

lemma post_memory:
  assumes "body \<noteq> JUndefined" and "body \<noteq> JNull"
    and "field body ''name'' = JString s" and "s \<noteq> []" and "truthy (field body ''time'')"
    and "parseFloat e (field body ''time'') = Inr t"
    and "readyState e \<noteq> 1"
    and "d = \<lparr>id' = now e, name = take 20 s, time = t,
              accuracy = js_or (field body ''accuracy'') (JNumber (Fin 100)),
              date = isoNow e\<rparr>"
    and "lb = take 50 (js_sort by_time (memoryLeaderboard st @ [d]))"
  shows "post_api_score e st body =
           (st\<lparr>memoryLeaderboard := lb\<rparr>,
            Inr \<lparr>status = 201,
                 json = ScoreRecorded d (Some memory)
                          (findIndex (\<lambda>x. id' x = id' d) lb + 1) (length lb)\<rparr>)"
  using assms by (simp add: post_api_score_def post_api_score_try_def Let_def)

lemma post_memonly_memory:
  assumes "body \<noteq> JUndefined" and "body \<noteq> JNull"
    and "field body ''name'' = JString s" and "s \<noteq> []" and "truthy (field body ''time'')"
    and "parseFloat e (field body ''time'') = Inr t"
    and "d = \<lparr>id' = now e, name = take 20 s, time = t,
              accuracy = js_or (field body ''accuracy'') (JNumber (Fin 100)),
              date = isoNow e\<rparr>"
    and "lb = take 50 (js_sort by_time (leaderboard @ [d]))"
  shows "post_api_score_memonly e leaderboard body =
           (lb,
            Inr \<lparr>status = 201,
                 json = ScoreRecorded d None
                          (findIndex (\<lambda>x. id' x = id' d) lb + 1) (length lb)\<rparr>)"
  using assms
  by (simp add: post_api_score_memonly_def post_api_score_memonly_try_def Let_def)

lemma post_mongo:
  assumes "body \<noteq> JUndefined" and "body \<noteq> JNull"
    and "field body ''name'' = JString s" and "s \<noteq> []" and "truthy (field body ''time'')"
    and "parseFloat e (field body ''time'') = Inr t"
    and "readyState e = 1"
  shows "post_api_score e st body =
           (case save e (scores st) (take 20 s) t
                   (js_or (field body ''accuracy'') (JNumber (Fin 100))) of
              Inl err \<Rightarrow> (st, Inr \<lparr>status = 500, json = SubmitFailed err (isoNow e)\<rparr>)
            | Inr (db, d) \<Rightarrow>
                (st\<lparr>scores := db\<rparr>, Inr \<lparr>status = 201, json = ScoreSaved d (isoNow e)\<rparr>))"
  using assms
  by (simp add: post_api_score_def post_api_score_try_def Let_def split: sum.splits prod.splits)

lemma save_Inr:
  assumes "save e db nm t acc = Inr (db', d)"
  shows "db' = db @ [d\<lparr>doc_name := to_well_formed nm\<rparr>] \<and> doc_name d = nm \<and> doc_time d = t
       \<and> cast_accuracy e acc = Some (doc_accuracy d)"
  using assms by (auto simp: save_def Let_def split: if_splits option.splits)

lemma post_api_score_memory_cases:
  assumes "readyState e \<noteq> 1" and "post_api_score e st body = (st', out)"
  shows "(st' = st \<and> recorded [out] = [])
       \<or> (\<exists>d s t. field body ''name'' = JString s \<and> s \<noteq> [] \<and> truthy (field body ''time'')
             \<and> parseFloat e (field body ''time'') = Inr t
             \<and> body \<noteq> JUndefined \<and> body \<noteq> JNull
             \<and> d = \<lparr>id' = now e, name = take 20 s, time = t,
                     accuracy = js_or (field body ''accuracy'') (JNumber (Fin 100)),
                     date = isoNow e\<rparr>
             \<and> st' = st\<lparr>memoryLeaderboard := take 50 (js_sort by_time (memoryLeaderboard st @ [d]))\<rparr>
             \<and> out = Inr \<lparr>status = 201,
                   json = ScoreRecorded d (Some memory)
                     (findIndex (\<lambda>x. id' x = id' d) (memoryLeaderboard st') + 1)
                     (length (memoryLeaderboard st'))\<rparr>)"
proof -
  consider (a) "body = JUndefined \<or> body = JNull"
    | (b) "body \<noteq> JUndefined" "body \<noteq> JNull"
          "\<not> truthy (field body ''name'') \<or> \<not> truthy (field body ''time'')"
    | (c) "body \<noteq> JUndefined" "body \<noteq> JNull"
          "truthy (field body ''name'')" "truthy (field body ''time'')"
          "\<And>s. field body ''name'' \<noteq> JString s"
    | (d) s err where "body \<noteq> JUndefined" "body \<noteq> JNull"
          "truthy (field body ''name'')" "truthy (field body ''time'')"
          "field body ''name'' = JString s" "parseFloat e (field body ''time'') = Inl err"
    | (e) s t where "body \<noteq> JUndefined" "body \<noteq> JNull"
          "truthy (field body ''name'')" "truthy (field body ''time'')"
          "field body ''name'' = JString s" "parseFloat e (field body ''time'') = Inr t"
    by (cases "parseFloat e (field body ''time'')") blast+
  then show ?thesis
  proof cases
    case a
    from post_nullish [OF a, of e st] assms(2) show ?thesis by auto
  next
    case b
    from post_falsy [OF b, of e st] assms(2) show ?thesis by auto
  next
    case c
    from post_not_string [OF c, of e st] assms(2) show ?thesis by auto
  next
    case d
    then have ne: "s \<noteq> []" by auto
    from post_unprintable [OF d(1,2,5) ne d(4,6), of st] assms(2) show ?thesis by auto
  next
    case e
    then have ne: "s \<noteq> []" by auto
    from post_memory [OF e(1,2,5) ne e(4,6) assms(1) refl refl, of st] assms(2) e ne
    show ?thesis by auto
  qed
qed

lemma post_try_status:
  assumes "post_api_score_try e st body = (st', Inr r)"
  shows "status r = 201 \<or> status r = 400"
  using assms
  by (auto simp: post_api_score_try_def Let_def split: if_splits sum.splits prod.splits)

lemma post_total:
  "\<exists>st' r. post_api_score e st body = (st', Inr r) \<and> status r \<in> {201, 400, 500}
       \<and> (\<forall>err. snd (post_api_score_try e st body) = Inl err \<longrightarrow>
              status r = 500 \<and> json r = SubmitFailed err (isoNow e))"
proof (cases "post_api_score_try e st body")
  case (Pair st' out)
  show ?thesis
  proof (cases out)
    case (Inl err)
    with Pair show ?thesis by (simp add: post_api_score_def)
  next
    case (Inr r)
    with Pair post_try_status [of e st body st' r] show ?thesis
      by (auto simp: post_api_score_def)
  qed
qed

lemma get_total:
  "\<exists>st' r. get_api_leaderboard e st = (st', Inr r) \<and> status r \<in> {200, 500}
       \<and> (\<forall>err. snd (get_api_leaderboard_try e st) = Inl err \<longrightarrow>
              status r = 500 \<and> json r = LoadFailed err (isoNow e))"
  by (auto simp: get_api_leaderboard_def get_api_leaderboard_try_def
        find_sort_limit_def countDocuments_def)

lemma delete_total:
  "\<exists>st' r. delete_api_leaderboard e st = (st', Inr r) \<and> status r \<in> {200, 500}
       \<and> (\<forall>err. snd (delete_api_leaderboard_try e st) = Inl err \<longrightarrow>
              status r = 500 \<and> json r = ClearFailed err (isoNow e))"
  by (auto simp: delete_api_leaderboard_def delete_api_leaderboard_try_def deleteMany_def)

lemma accuracy_kept_or_defaulted:
  assumes "body \<noteq> JUndefined" and "body \<noteq> JNull"
    and "field body ''name'' = JString s" and "s \<noteq> []" and "truthy (field body ''time'')"
    and "parseFloat e (field body ''time'') = Inr t"
    and "readyState e \<noteq> 1"
    and "post_api_score e st body = (st', Inr \<lparr>status = 201, json = ScoreRecorded d tag rank n\<rparr>)"
  shows "(field body ''accuracy'' = JUndefined \<longrightarrow> accuracy d = JNumber (Fin 100))
       \<and> (\<forall>a. field body ''accuracy'' = JNumber (Fin a) \<and> a \<noteq> 0 \<longrightarrow> accuracy d = JNumber (Fin a))"
  using post_memory [OF assms(1-7) refl refl, of st] assms(8)
  by (auto simp: js_or_def)


section \<open>The handlers as Express runs them: agreement and answers\<close>

text \<open>
  Run with a fresh response object, each handler written statement by statement does
  what the function above computes. A \<open>try\<close> block with a \<open>catch\<close> that answers is not
  thereby safe: a block that throws after it has sent makes the \<open>catch\<close> block throw in
  turn, and one that returns without sending leaves the request unanswered.
\<close>

lemmas js_defs = js_return_def js_throw_def js_bind_def js_try_def js_lift_def js_get_def
  js_put_def res_json_def

lemma app_post_score_try_agrees:
  "app_post_score_try e body (st, None) =
     (case post_api_score_try e st body of
        (st', Inl err) \<Rightarrow> (Inl err, (st', None))
      | (st', Inr r) \<Rightarrow> (Inr (), (st', Some r)))"
  by (simp add: app_post_score_try_def post_api_score_try_def js_defs Let_def
        split: sum.splits prod.splits)

lemma app_get_leaderboard_try_agrees:
  "app_get_leaderboard_try e (st, None) =
     (case get_api_leaderboard_try e st of
        (st', Inl err) \<Rightarrow> (Inl err, (st', None))
      | (st', Inr r) \<Rightarrow> (Inr (), (st', Some r)))"
  by (simp add: app_get_leaderboard_try_def get_api_leaderboard_try_def js_defs
        split: sum.splits prod.splits)

lemma app_delete_leaderboard_try_agrees:
  "app_delete_leaderboard_try e (st, None) =
     (case delete_api_leaderboard_try e st of
        (st', Inl err) \<Rightarrow> (Inl err, (st', None))
      | (st', Inr r) \<Rightarrow> (Inr (), (st', Some r)))"
  by (simp add: app_delete_leaderboard_try_def delete_api_leaderboard_try_def js_defs
        split: sum.splits prod.splits)

lemma app_post_score_agrees:
  "app_post_score e body (st, None) =
     (case post_api_score e st body of
        (st', Inl err) \<Rightarrow> (Inl err, (st', None))
      | (st', Inr r) \<Rightarrow> (Inr (), (st', Some r)))"
  by (simp add: app_post_score_def post_api_score_def js_try_def app_post_score_try_agrees
        res_json_def split: sum.splits prod.splits)

lemma app_get_leaderboard_agrees:
  "app_get_leaderboard e (st, None) =
     (case get_api_leaderboard e st of
        (st', Inl err) \<Rightarrow> (Inl err, (st', None))
      | (st', Inr r) \<Rightarrow> (Inr (), (st', Some r)))"
  by (simp add: app_get_leaderboard_def get_api_leaderboard_def js_try_def
        app_get_leaderboard_try_agrees res_json_def split: sum.splits prod.splits)

lemma app_delete_leaderboard_agrees:
  "app_delete_leaderboard e (st, None) =
     (case delete_api_leaderboard e st of
        (st', Inl err) \<Rightarrow> (Inl err, (st', None))
      | (st', Inr r) \<Rightarrow> (Inr (), (st', Some r)))"
  by (simp add: app_delete_leaderboard_def delete_api_leaderboard_def js_try_def
        app_delete_leaderboard_try_agrees res_json_def split: sum.splits prod.splits)

lemma catch_after_send_throws:
  "js_try (js_bind (res_json 200 b) (\<lambda>u. js_throw TypeError))
          (\<lambda>error. res_json 500 (SubmitFailed error ts)) (st, None)
     = (Inl HeadersSent, (st, Some \<lparr>status = 200, json = b\<rparr>))"
  by (simp add: js_defs)

lemma throw_after_send_crashes:
  "finish (js_try (js_bind (res_json 200 b) (\<lambda>u. js_throw TypeError))
             (\<lambda>error. res_json 500 (SubmitFailed error ts)) (st, None))
     = (st, Crashed HeadersSent)"
  by (simp add: js_defs finish_def)

lemma silent_handler_unanswered:
  "finish (js_try (js_return ()) (\<lambda>error. res_json 500 (SubmitFailed error ts)) (st, None))
     = (st, Unanswered)"
  by (simp add: js_defs finish_def)

lemma response_eqI: "status r = c \<Longrightarrow> json r = b \<Longrightarrow> (r :: response) = \<lparr>status = c, json = b\<rparr>"
  by (cases r) simp

lemma app_malformed:
  "app e ep Malformed st =
     (st, Answered \<lparr>status = 500, json = ServerError SyntaxError (isoNow e) (\<not> production e)\<rparr>)"
  by (simp add: app_def express_json_def error_middleware_def finish_def js_defs)

lemma app_post_total:
  "\<exists>st' r. app e PostScore p st = (st', Answered r) \<and> status r \<in> {201, 400, 500}
     \<and> (\<forall>body. p = Parsed body \<longrightarrow> post_api_score e st body = (st', Inr r))
     \<and> (\<forall>body err w. p = Parsed body \<and> app_post_score_try e body (st, None) = (Inl err, w) \<longrightarrow>
           r = \<lparr>status = 500, json = SubmitFailed err (isoNow e)\<rparr>)
     \<and> (p = Malformed \<longrightarrow>
           st' = st \<and>
           r = \<lparr>status = 500, json = ServerError SyntaxError (isoNow e) (\<not> production e)\<rparr>)"
proof (cases p)
  case Malformed
  then show ?thesis by (simp add: app_malformed)
next
  case (Parsed body)
  from post_total [of e st body] obtain st' r where r: "post_api_score e st body = (st', Inr r)"
    "status r \<in> {201, 400, 500}"
    "\<forall>err. snd (post_api_score_try e st body) = Inl err \<longrightarrow>
       status r = 500 \<and> json r = SubmitFailed err (isoNow e)"
    by blast
  have run: "app e PostScore p st = (st', Answered r)"
    by (simp add: Parsed app_def express_json_def route_def js_return_def
          app_post_score_agrees r(1) finish_def)
  have "r = \<lparr>status = 500, json = SubmitFailed err (isoNow e)\<rparr>"
    if "app_post_score_try e body (st, None) = (Inl err, w)" for err w
  proof -
    from that have "snd (post_api_score_try e st body) = Inl err"
      by (auto simp: app_post_score_try_agrees split: prod.splits sum.splits)
    with r(3) show ?thesis by (simp add: response_eqI)
  qed
  with run r(1,2) Parsed show ?thesis by auto
qed

lemma app_get_total:
  "\<exists>st' r. app e GetLeaderboard p st = (st', Answered r) \<and> status r \<in> {200, 500}
     \<and> (\<forall>body. p = Parsed body \<longrightarrow> get_api_leaderboard e st = (st', Inr r))
     \<and> (\<forall>body err w. p = Parsed body \<and> app_get_leaderboard_try e (st, None) = (Inl err, w) \<longrightarrow>
           r = \<lparr>status = 500, json = LoadFailed err (isoNow e)\<rparr>)
     \<and> (p = Malformed \<longrightarrow>
           st' = st \<and>
           r = \<lparr>status = 500, json = ServerError SyntaxError (isoNow e) (\<not> production e)\<rparr>)"
proof (cases p)
  case Malformed
  then show ?thesis by (simp add: app_malformed)
next
  case (Parsed body)
  from get_total [of e st] obtain st' r where r: "get_api_leaderboard e st = (st', Inr r)"
    "status r \<in> {200, 500}"
    "\<forall>err. snd (get_api_leaderboard_try e st) = Inl err \<longrightarrow>
       status r = 500 \<and> json r = LoadFailed err (isoNow e)"
    by blast
  have run: "app e GetLeaderboard p st = (st', Answered r)"
    by (simp add: Parsed app_def express_json_def route_def js_return_def
          app_get_leaderboard_agrees r(1) finish_def)
  have "r = \<lparr>status = 500, json = LoadFailed err (isoNow e)\<rparr>"
    if "app_get_leaderboard_try e (st, None) = (Inl err, w)" for err w
  proof -
    from that have "snd (get_api_leaderboard_try e st) = Inl err"
      by (auto simp: app_get_leaderboard_try_agrees split: prod.splits sum.splits)
    with r(3) show ?thesis by (simp add: response_eqI)
  qed
  with run r(1,2) Parsed show ?thesis by auto
qed

lemma app_delete_total:
  "\<exists>st' r. app e DeleteLeaderboard p st = (st', Answered r) \<and> status r \<in> {200, 500}
     \<and> (\<forall>body. p = Parsed body \<longrightarrow> delete_api_leaderboard e st = (st', Inr r))
     \<and> (\<forall>body err w. p = Parsed body \<and> app_delete_leaderboard_try e (st, None) = (Inl err, w) \<longrightarrow>
           r = \<lparr>status = 500, json = ClearFailed err (isoNow e)\<rparr>)
     \<and> (p = Malformed \<longrightarrow>
           st' = st \<and>
           r = \<lparr>status = 500, json = ServerError SyntaxError (isoNow e) (\<not> production e)\<rparr>)"
proof (cases p)
  case Malformed
  then show ?thesis by (simp add: app_malformed)
next
  case (Parsed body)
  from delete_total [of e st] obtain st' r where r: "delete_api_leaderboard e st = (st', Inr r)"
    "status r \<in> {200, 500}"
    "\<forall>err. snd (delete_api_leaderboard_try e st) = Inl err \<longrightarrow>
       status r = 500 \<and> json r = ClearFailed err (isoNow e)"
    by blast
  have run: "app e DeleteLeaderboard p st = (st', Answered r)"
    by (simp add: Parsed app_def express_json_def route_def js_return_def
          app_delete_leaderboard_agrees r(1) finish_def)
  have "r = \<lparr>status = 500, json = ClearFailed err (isoNow e)\<rparr>"
    if "app_delete_leaderboard_try e (st, None) = (Inl err, w)" for err w
  proof -
    from that have "snd (delete_api_leaderboard_try e st) = Inl err"
      by (auto simp: app_delete_leaderboard_try_agrees split: prod.splits sum.splits)
    with r(3) show ?thesis by (simp add: response_eqI)
  qed
  with run r(1,2) Parsed show ?thesis by auto
qed

section \<open>Sequences of submissions\<close>

lemma recorded_Cons: "recorded (out # outs) = recorded [out] @ recorded outs"
proof (cases out)
  case (Inl err)
  then show ?thesis by simp
next
  case (Inr r)
  then show ?thesis by (cases "json r") simp_all
qed

lemma serve_scores_append:
  "serve_scores st (xs @ ys) =
     (case serve_scores st xs of
        (st1, outs1) \<Rightarrow> (case serve_scores st1 ys of (st2, outs2) \<Rightarrow> (st2, outs1 @ outs2)))"
  by (induction xs arbitrary: st) (auto split: prod.splits)

lemma trim_step_size:
  assumes sub: "mset lb \<subseteq># mset recs"
    and len: "length lb = min 50 (length recs)"
    and lb': "lb' = take 50 (js_sort cmp (lb @ [d]))"
  shows "mset lb' \<subseteq># mset (recs @ [d]) \<and> length lb' = min 50 (length (recs @ [d]))"
proof -
  let ?S = "js_sort cmp (lb @ [d])"
  have "mset lb' \<subseteq># mset ?S"
    unfolding lb' by (metis append_take_drop_id mset_append mset_subset_eq_add_left)
  also have "mset ?S = add_mset d (mset lb)"
    by (simp add: mset_js_sort)
  also have "\<dots> \<subseteq># mset (recs @ [d])"
    using sub by simp
  finally have "mset lb' \<subseteq># mset (recs @ [d])" .
  moreover have "length lb' = min 50 (length (recs @ [d]))"
    using len by (simp add: lb' length_js_sort)
  ultimately show ?thesis by simp
qed

lemma trim_step_sorted:
  assumes nonan: "\<forall>x\<in>set (recs @ [d]). time x \<noteq> NaN"
    and sub: "mset lb \<subseteq># mset recs"
    and len: "length lb = min 50 (length recs)"
    and low: "\<forall>x\<in>#mset recs - mset lb. \<forall>s\<in>set lb. js_le (time s) (time x)"
    and lb': "lb' = take 50 (js_sort by_time (lb @ [d]))"
  shows "sorted_by_time lb' \<and>
         (\<forall>x\<in>#mset (recs @ [d]) - mset lb'. \<forall>s\<in>set lb'. js_le (time s) (time x))"
proof -
  let ?S = "js_sort by_time (lb @ [d])"
  let ?D = "drop 50 ?S"
  have set_lb: "set lb \<subseteq> set recs"
    using sub by (metis set_mset_mono set_mset_mset)
  have "\<forall>x\<in>set (lb @ [d]). time x \<noteq> NaN"
    using nonan set_lb by auto
  then have sortedS: "sorted_by_time ?S"
    by (rule sorted_js_sort)
  have split: "?S = lb' @ ?D"
    by (simp add: lb')
  have msetS: "mset ?S = add_mset d (mset lb)"
    by (simp add: mset_js_sort)
  have setS: "set ?S = insert d (set lb)"
    by (simp add: set_js_sort)
  have across: "\<forall>a\<in>set lb'. \<forall>b\<in>set ?D. js_le (time a) (time b)"
    using sortedS unfolding sorted_by_time_def
    by (subst (asm) split) (simp add: sorted_wrt_append)
  have sorted': "sorted_by_time lb'"
    unfolding lb' using sortedS by (rule sorted_by_time_take)
  have "mset lb' + mset ?D = add_mset d (mset lb)"
    using msetS split by (metis mset_append)
  moreover have "mset recs = (mset recs - mset lb) + mset lb"
    using sub by simp
  ultimately have "mset (recs @ [d]) = ((mset recs - mset lb) + mset ?D) + mset lb'"
    by (metis (no_types, lifting) add.assoc add.commute add_mset_add_single mset.simps(1,2)
        mset_append)
  then have rest: "mset (recs @ [d]) - mset lb' = (mset recs - mset lb) + mset ?D"
    by simp
  have "js_le (time s) (time x)"
    if x: "x \<in># mset (recs @ [d]) - mset lb'" and s: "s \<in> set lb'" for x s
  proof -
    from x rest have "x \<in># mset recs - mset lb \<or> x \<in> set ?D"
      by auto
    then show ?thesis
    proof
      assume "x \<in> set ?D"
      with across s show ?thesis by blast
    next
      assume old: "x \<in># mset recs - mset lb"
      then have "mset lb \<noteq> mset recs" by auto
      with sub have "mset lb \<subset># mset recs" by (simp add: subset_mset.less_le)
      then have "length lb < length recs"
        using mset_subset_size by fastforce
      with len have full: "length lb = 50" by simp
      then have lenS: "length ?S = 51" by (simp add: length_js_sort)
      then have "?D \<noteq> []" by simp
      then obtain m where m: "m \<in> set ?D" by (cases ?D) auto
      from s have "s \<in> set ?S" unfolding lb' by (rule in_set_takeD)
      with setS have "s = d \<or> s \<in> set lb" by simp
      then show ?thesis
      proof (cases "s \<in> set lb")
        case True
        with low old show ?thesis by blast
      next
        case False
        with \<open>s = d \<or> s \<in> set lb\<close> have sd: "s = d" by simp
        have "m \<noteq> d"
        proof
          assume "m = d"
          with m s sd have "d \<in> set lb'" "d \<in> set ?D" by simp_all
          then have "d \<in># mset lb'" "d \<in># mset ?D" by simp_all
          then have c: "0 < count (mset lb') d" "0 < count (mset ?D) d"
            by (simp_all only: count_greater_zero_iff)
          have "count (mset lb' + mset ?D) d = count (mset lb') d + count (mset ?D) d"
            by (rule count_union)
          with c have "2 \<le> count (mset lb' + mset ?D) d"
            by linarith
          moreover have "count (add_mset d (mset lb)) d = 1"
            using False sd by (simp add: count_eq_zero_iff)
          ultimately show False
            using \<open>mset lb' + mset ?D = add_mset d (mset lb)\<close> by simp
        qed
        moreover from m have "m \<in> set ?S" by (rule in_set_dropD)
        ultimately have "m \<in> set lb" using setS by simp
        with low old have "js_le (time m) (time x)" by blast
        moreover from across s m have "js_le (time s) (time m)" by blast
        ultimately show ?thesis by (blast intro: js_le_trans)
      qed
    qed
  qed
  with sorted' show ?thesis by blast
qed

lemma trim_drops_last:
  assumes full: "length lb = 50"
    and lb': "lb' = take 50 (js_sort by_time (lb @ [d]))"
  shows "\<exists>x. add_mset x (mset lb') = add_mset d (mset lb)
           \<and> ((\<forall>y\<in>set (lb @ [d]). time y \<noteq> NaN) \<longrightarrow>
                (\<forall>s\<in>set lb'. js_le (time s) (time x)))"
proof -
  let ?S = "js_sort by_time (lb @ [d])"
  have len: "length ?S = 51"
    using full by (simp add: length_js_sort)
  then have "drop 50 ?S = [?S ! 50]"
    by (metis Cons_nth_drop_Suc drop_all le_refl lessI numeral_plus_one semiring_norm(5,8)
        Suc_eq_plus1 eval_nat_numeral(3))
  then have split: "?S = lb' @ [?S ! 50]"
    unfolding lb' by (metis append_take_drop_id)
  have "mset ?S = add_mset d (mset lb)"
    by (simp add: mset_js_sort)
  with split have m: "add_mset (?S ! 50) (mset lb') = add_mset d (mset lb)"
    by (metis mset.simps(2) mset_append union_mset_add_mset_right add.right_neutral
        mset.simps(1))
  have "\<forall>s\<in>set lb'. js_le (time s) (time (?S ! 50))"
    if "\<forall>y\<in>set (lb @ [d]). time y \<noteq> NaN"
  proof -
    from that have "sorted_by_time ?S" by (rule sorted_js_sort)
    then show ?thesis
      unfolding sorted_by_time_def
      by (subst (asm) split) (simp add: sorted_wrt_append)
  qed
  with m show ?thesis by blast
qed

lemma serve_invariant_size:
  assumes "\<forall>(e, body)\<in>set reqs. readyState e \<noteq> 1"
    and "serve_scores st reqs = (st', outs)"
    and "mset (memoryLeaderboard st) \<subseteq># mset recs"
    and "length (memoryLeaderboard st) = min 50 (length recs)"
  shows "mset (memoryLeaderboard st') \<subseteq># mset (recs @ recorded outs)
       \<and> length (memoryLeaderboard st') = min 50 (length (recs @ recorded outs))"
  using assms
proof (induction reqs arbitrary: st recs outs st')
  case Nil
  then show ?case by simp
next
  case (Cons req reqs)
  obtain e body where req: "req = (e, body)" by (cases req)
  obtain st1 out where step: "post_api_score e st body = (st1, out)"
    by (cases "post_api_score e st body")
  obtain st2 outs' where rest: "serve_scores st1 reqs = (st2, outs')"
    by (cases "serve_scores st1 reqs")
  from Cons.prems(2) req step rest have st': "st' = st2" and outs: "outs = out # outs'"
    by simp_all
  from Cons.prems(1) req have mem: "readyState e \<noteq> 1"
    and mems: "\<forall>(e, body)\<in>set reqs. readyState e \<noteq> 1"
    by simp_all
  have rec: "recorded outs = recorded [out] @ recorded outs'"
    unfolding outs by (rule recorded_Cons)
  from post_api_score_memory_cases [OF mem step]
  consider (same) "st1 = st" "recorded [out] = []"
    | (new) d where "recorded [out] = [d]"
        "memoryLeaderboard st1 = take 50 (js_sort by_time (memoryLeaderboard st @ [d]))"
    by auto
  then show ?case
  proof cases
    case same
    from Cons.IH [OF mems rest, of recs] Cons.prems(3,4) same rec st'
    show ?thesis by simp
  next
    case new
    from trim_step_size [OF Cons.prems(3,4) new(2)]
    have "mset (memoryLeaderboard st1) \<subseteq># mset (recs @ [d])"
      and "length (memoryLeaderboard st1) = min 50 (length (recs @ [d]))"
      by simp_all
    from Cons.IH [OF mems rest this] new(1) rec st'
    show ?thesis by simp
  qed
qed

lemma serve_invariant_sorted:
  assumes "\<forall>(e, body)\<in>set reqs. readyState e \<noteq> 1"
    and "serve_scores st reqs = (st', outs)"
    and "mset (memoryLeaderboard st) \<subseteq># mset recs"
    and "length (memoryLeaderboard st) = min 50 (length recs)"
    and "\<forall>x\<in>#mset recs - mset (memoryLeaderboard st).
           \<forall>s\<in>set (memoryLeaderboard st). js_le (time s) (time x)"
    and "sorted_by_time (memoryLeaderboard st)"
    and "\<forall>x\<in>set (recs @ recorded outs). time x \<noteq> NaN"
  shows "sorted_by_time (memoryLeaderboard st')
       \<and> (\<forall>x\<in>#mset (recs @ recorded outs) - mset (memoryLeaderboard st').
             \<forall>s\<in>set (memoryLeaderboard st'). js_le (time s) (time x))"
  using assms
proof (induction reqs arbitrary: st recs outs st')
  case Nil
  then show ?case by simp
next
  case (Cons req reqs)
  obtain e body where req: "req = (e, body)" by (cases req)
  obtain st1 out where step: "post_api_score e st body = (st1, out)"
    by (cases "post_api_score e st body")
  obtain st2 outs' where rest: "serve_scores st1 reqs = (st2, outs')"
    by (cases "serve_scores st1 reqs")
  from Cons.prems(2) req step rest have st': "st' = st2" and outs: "outs = out # outs'"
    by simp_all
  from Cons.prems(1) req have mem: "readyState e \<noteq> 1"
    and mems: "\<forall>(e, body)\<in>set reqs. readyState e \<noteq> 1"
    by simp_all
  have rec: "recorded outs = recorded [out] @ recorded outs'"
    unfolding outs by (rule recorded_Cons)
  from post_api_score_memory_cases [OF mem step]
  consider (same) "st1 = st" "recorded [out] = []"
    | (new) d where "recorded [out] = [d]"
        "memoryLeaderboard st1 = take 50 (js_sort by_time (memoryLeaderboard st @ [d]))"
    by auto
  then show ?case
  proof cases
    case same
    from Cons.prems(7) rec same have "\<forall>x\<in>set (recs @ recorded outs'). time x \<noteq> NaN"
      by simp
    from Cons.IH [OF mems rest, of recs] Cons.prems(3,4,5,6) this same rec st'
    show ?thesis by simp
  next
    case new
    from Cons.prems(7) rec new(1) have nan1: "\<forall>x\<in>set (recs @ [d]). time x \<noteq> NaN"
      and nan2: "\<forall>x\<in>set ((recs @ [d]) @ recorded outs'). time x \<noteq> NaN"
      by simp_all
    from trim_step_size [OF Cons.prems(3,4) new(2)]
    have a: "mset (memoryLeaderboard st1) \<subseteq># mset (recs @ [d])"
      and b: "length (memoryLeaderboard st1) = min 50 (length (recs @ [d]))"
      by simp_all
    from trim_step_sorted [OF nan1 Cons.prems(3,4,5) new(2)]
    have c: "\<forall>x\<in>#mset (recs @ [d]) - mset (memoryLeaderboard st1).
               \<forall>s\<in>set (memoryLeaderboard st1). js_le (time s) (time x)"
      and d: "sorted_by_time (memoryLeaderboard st1)"
      by simp_all
    from Cons.IH [OF mems rest a b c d nan2] new(1) rec st'
    show ?thesis by simp
  qed
qed


section \<open>The sample players\<close>

lemmas eval_defs = offline_def online_def empty_server_def submission_def
  post_api_score_def post_api_score_try_def Let_def js_or_def is_digit_def
  save_def cast_accuracy_def

lemma sorted_players: "sorted_by_time (map player [1..<m])"
proof -
  have "sorted_wrt (\<le>) [1..<m]" by simp
  then show ?thesis
    by (simp add: sorted_by_time_def sorted_wrt_map player_def del: upt_Suc)
qed

lemma player_request_step:
  assumes lb: "memoryLeaderboard st = map player [1..<m]" and m: "1 \<le> m" "m \<le> 50"
  shows "post_api_score (offline (int m)) st (submission ''p'' (JNumber (Fin (real m)))) =
           (st\<lparr>memoryLeaderboard := map player [1..<Suc m]\<rparr>,
            Inr \<lparr>status = 201,
                 json = ScoreRecorded (player m) (Some memory)
                   (findIndex (\<lambda>x. id' x = id' (player m)) (map player [1..<Suc m]) + 1)
                   m\<rparr>)"
proof -
  let ?body = "submission ''p'' (JNumber (Fin (real m)))"
  have d: "player m =
      \<lparr>id' = now (offline (int m)), name = take 20 (ascii ''p''),
        time = Fin (real m),
        accuracy = js_or (field ?body ''accuracy'') (JNumber (Fin 100)),
        date = isoNow (offline (int m))\<rparr>"
    by (simp add: player_def offline_def submission_def js_or_def)
  have up: "[1..<Suc m] = [1..<m] @ [m]"
    using m by (simp del: upt_Suc add: upt_Suc_append)
  have "js_sort by_time (map player [1..<m] @ [player m]) = map player [1..<m] @ [player m]"
    by (rule js_sort_append_last [OF sorted_players]) (auto simp: player_def)
  then have new: "map player [1..<Suc m] =
      take 50 (js_sort by_time (memoryLeaderboard st @ [player m]))"
    using m by (simp add: lb upt_Suc_append del: upt_Suc)
  have "post_api_score (offline (int m)) st ?body =
           (st\<lparr>memoryLeaderboard := map player [1..<Suc m]\<rparr>,
            Inr \<lparr>status = 201,
                 json = ScoreRecorded (player m) (Some memory)
                   (findIndex (\<lambda>x. id' x = id' (player m)) (map player [1..<Suc m]) + 1)
                   (length (map player [1..<Suc m]))\<rparr>)"
  proof (rule post_memory [OF _ _ _ _ _ _ _ d new])
    show "field ?body ''name'' = JString (ascii ''p'')" by (simp add: submission_def)
    show "truthy (field ?body ''time'')" using m by (simp add: submission_def)
    show "parseFloat (offline (int m)) (field ?body ''time'') = Inr (Fin (real m))"
      by (simp add: submission_def)
  qed (simp_all add: submission_def offline_def)
  then show ?thesis by (simp del: upt_Suc)
qed

lemma players_served:
  assumes "1 \<le> m" and "m \<le> 51"
  shows "fst (serve_scores empty_server (map player_request [1..<m])) =
           \<lparr>memoryLeaderboard = map player [1..<m], scores = []\<rparr>"
  using assms
proof (induction m rule: dec_induct)
  case base
  show ?case by (simp add: empty_server_def)
next
  case (step n)
  then have IH: "fst (serve_scores empty_server (map player_request [1..<n])) =
      \<lparr>memoryLeaderboard = map player [1..<n], scores = []\<rparr>"
    and n: "1 \<le> n" "n \<le> 50"
    by simp_all
  have up: "[1..<Suc n] = [1..<n] @ [n]"
    using n by (simp del: upt_Suc add: upt_Suc_append)
  from player_request_step [OF _ n, of "\<lparr>memoryLeaderboard = map player [1..<n], scores = []\<rparr>"]
  have "fst (post_api_score (offline (int n))
               \<lparr>memoryLeaderboard = map player [1..<n], scores = []\<rparr>
               (submission ''p'' (JNumber (Fin (real n))))) =
          \<lparr>memoryLeaderboard = map player [1..<Suc n], scores = []\<rparr>"
    by (simp del: upt_Suc)
  moreover obtain outs where "serve_scores empty_server (map player_request [1..<n]) =
      (\<lparr>memoryLeaderboard = map player [1..<n], scores = []\<rparr>, outs)"
    using IH by (cases "serve_scores empty_server (map player_request [1..<n])") simp
  ultimately show ?case
    unfolding up map_append serve_scores_append
    by (cases "post_api_score (offline (int n))
               \<lparr>memoryLeaderboard = map player [1..<n], scores = []\<rparr>
               (submission ''p'' (JNumber (Fin (real n))))")
       (simp add: player_request_def del: upt_Suc)
qed

lemma fifty_players_eq:
  "fifty_players = \<lparr>memoryLeaderboard = map player [1..<51], scores = []\<rparr>"
  using players_served [of 51] by (simp add: fifty_players_def)

lemma player_request_recorded:
  assumes "1 \<le> m"
  shows "recorded [snd (post_api_score (offline (int m)) st
            (submission ''p'' (JNumber (Fin (real m)))))] = [player m]"
proof -
  let ?body = "submission ''p'' (JNumber (Fin (real m)))"
  have d: "player m =
      \<lparr>id' = now (offline (int m)), name = take 20 (ascii ''p''),
        time = Fin (real m),
        accuracy = js_or (field ?body ''accuracy'') (JNumber (Fin 100)),
        date = isoNow (offline (int m))\<rparr>"
    by (simp add: player_def offline_def submission_def js_or_def)
  have "post_api_score (offline (int m)) st ?body =
      (st\<lparr>memoryLeaderboard := take 50 (js_sort by_time (memoryLeaderboard st @ [player m]))\<rparr>,
       Inr \<lparr>status = 201,
            json = ScoreRecorded (player m) (Some memory)
              (findIndex (\<lambda>x. id' x = id' (player m))
                 (take 50 (js_sort by_time (memoryLeaderboard st @ [player m]))) + 1)
              (length (take 50 (js_sort by_time (memoryLeaderboard st @ [player m]))))\<rparr>)"
  proof (rule post_memory [OF _ _ _ _ _ _ _ d refl])
    show "field ?body ''name'' = JString (ascii ''p'')" by (simp add: submission_def)
    show "truthy (field ?body ''time'')" using assms by (simp add: submission_def)
    show "parseFloat (offline (int m)) (field ?body ''time'') = Inr (Fin (real m))"
      by (simp add: submission_def)
  qed (simp_all add: submission_def offline_def)
  then show ?thesis by simp
qed

lemma players_recorded:
  assumes "\<forall>m\<in>set ms. 1 \<le> m"
  shows "recorded (snd (serve_scores st (map player_request ms))) = map player ms"
  using assms
proof (induction ms arbitrary: st)
  case Nil
  show ?case by simp
next
  case (Cons m ms)
  obtain st1 out where step: "post_api_score (offline (int m)) st
      (submission ''p'' (JNumber (Fin (real m)))) = (st1, out)"
    by (cases "post_api_score (offline (int m)) st (submission ''p'' (JNumber (Fin (real m))))")
  obtain st2 outs where rest: "serve_scores st1 (map player_request ms) = (st2, outs)"
    by (cases "serve_scores st1 (map player_request ms)")
  from Cons.prems have m: "1 \<le> m" and ms: "\<forall>m\<in>set ms. 1 \<le> m" by simp_all
  from player_request_recorded [OF m, of st] step have "recorded [out] = [player m]" by simp
  moreover from Cons.IH [OF ms, of st1] rest have "recorded outs = map player ms" by simp
  ultimately have "recorded (out # outs) = player m # map player ms"
    using recorded_Cons [of out outs] by simp
  moreover have "serve_scores st (map player_request (m # ms)) = (st2, out # outs)"
    using step rest by (simp add: player_request_def [of m])
  ultimately show ?case by simp
qed


section \<open>The claims\<close>

text \<open>
  C1 (as amended). From an empty in-memory list, after any sequence of submissions served
  in memory mode, the list holds \<open>min 50 n\<close> records, \<open>n\<close> being the number of records
  created (so never more than 50, and exactly 50 after 51), and all of them are created
  records. If the time of no created record is \<open>NaN\<close>, the list is sorted ascending by
  time, and every created record that is no longer in the list has a time at least that
  of every record in the list: the list holds the lowest times.
\<close>

theorem memory_leaderboard_sorted_and_capped:
  assumes "memoryLeaderboard st0 = []"
    and "\<forall>(e, body)\<in>set reqs. readyState e \<noteq> 1"
    and "serve_scores st0 reqs = (st, outs)"
  shows "length (memoryLeaderboard st) = min 50 (length (recorded outs))
       \<and> (length (recorded outs) = 51 \<longrightarrow> length (memoryLeaderboard st) = 50)
       \<and> mset (memoryLeaderboard st) \<subseteq># mset (recorded outs)
       \<and> ((\<forall>d\<in>set (recorded outs). time d \<noteq> NaN) \<longrightarrow>
            sorted_by_time (memoryLeaderboard st)
          \<and> (\<forall>x\<in>#mset (recorded outs) - mset (memoryLeaderboard st).
                \<forall>s\<in>set (memoryLeaderboard st). js_le (time s) (time x)))"
proof -
  from serve_invariant_size [OF assms(2,3), of "[]"] assms(1)
  have size: "mset (memoryLeaderboard st) \<subseteq># mset (recorded outs)"
    "length (memoryLeaderboard st) = min 50 (length (recorded outs))"
    by simp_all
  have "sorted_by_time (memoryLeaderboard st)
      \<and> (\<forall>x\<in>#mset (recorded outs) - mset (memoryLeaderboard st).
            \<forall>s\<in>set (memoryLeaderboard st). js_le (time s) (time x))"
    if "\<forall>d\<in>set (recorded outs). time d \<noteq> NaN"
    using serve_invariant_sorted [OF assms(2,3), of "[]"] assms(1) that
    by (simp add: sorted_by_time_def)
  with size show ?thesis by simp
qed

text \<open>
  The instance of 51 submissions: players 1 to 51 submit in turn, 50 records are left and
  they are sorted.
\<close>

theorem memory_leaderboard_sorted_and_capped_witness:
  "length (memoryLeaderboard (fst (serve_scores empty_server (map player_request [1..<52])))) = 50
 \<and> sorted_by_time (memoryLeaderboard (fst (serve_scores empty_server (map player_request [1..<52]))))"
proof -
  let ?run = "serve_scores empty_server (map player_request [1..<52])"
  have rec: "recorded (snd ?run) = map player [1..<52]"
    by (rule players_recorded) simp
  have "memoryLeaderboard empty_server = []"
    by (simp add: empty_server_def)
  moreover have "\<forall>(e, body)\<in>set (map player_request [1..<52]). readyState e \<noteq> 1"
    by (simp add: player_request_def offline_def del: upt_Suc)
  moreover have "?run = (fst ?run, snd ?run)"
    by simp
  ultimately have "length (memoryLeaderboard (fst ?run)) = min 50 (length (recorded (snd ?run)))
       \<and> (length (recorded (snd ?run)) = 51 \<longrightarrow> length (memoryLeaderboard (fst ?run)) = 50)
       \<and> mset (memoryLeaderboard (fst ?run)) \<subseteq># mset (recorded (snd ?run))
       \<and> ((\<forall>d\<in>set (recorded (snd ?run)). time d \<noteq> NaN) \<longrightarrow>
            sorted_by_time (memoryLeaderboard (fst ?run))
          \<and> (\<forall>x\<in>#mset (recorded (snd ?run)) - mset (memoryLeaderboard (fst ?run)).
                \<forall>s\<in>set (memoryLeaderboard (fst ?run)). js_le (time s) (time x)))"
    by (rule memory_leaderboard_sorted_and_capped)
  moreover have "\<forall>d\<in>set (recorded (snd ?run)). time d \<noteq> NaN"
    unfolding rec by (simp add: player_def del: upt_Suc)
  moreover have "length (recorded (snd ?run)) = 51"
    unfolding rec by simp
  ultimately show ?thesis by simp
qed

text \<open>
  C1 as stated fails: a \<open>time\<close> that is present but not numeric passes the presence check
  and is stored as \<open>NaN\<close>. After the times 5, \<open>"abc"\<close> and 3 the list reads 5, \<open>NaN\<close>, 3.
  The order an implementation of \<open>sort\<close> leaves them in does not matter: by
  \<open>nan_never_sorted\<close> no list of two or more records with a \<open>NaN\<close> time is ascending.
\<close>

theorem nan_time_breaks_the_order:
  "map time (memoryLeaderboard (fst (serve_scores empty_server
      [(offline 1, submission ''Al'' (JNumber (Fin 5))),
       (offline 2, submission ''Bo'' (JString (ascii ''abc''))),
       (offline 3, submission ''Cy'' (JNumber (Fin 3)))]))) = [Fin 5, NaN, Fin 3]
 \<and> \<not> sorted_by_time (memoryLeaderboard (fst (serve_scores empty_server
      [(offline 1, submission ''Al'' (JNumber (Fin 5))),
       (offline 2, submission ''Bo'' (JString (ascii ''abc''))),
       (offline 3, submission ''Cy'' (JNumber (Fin 3)))])))"
  by (simp add: eval_defs sorted_by_time_def)

text \<open>
  C2 (as amended). A submission in memory mode with a non-empty string as \<open>name\<close> and a
  truthy \<open>time\<close> that \<open>parseFloat\<close> converts to \<open>t\<close> is answered 201 with the created
  record, a rank and \<open>totalPlayers\<close>, the length of the list after the trim; the handler
  of the memory-only file answers the same. The rank is found by the record's \<open>id\<close>, the
  clock at creation: if the record is in the list after the trim and no record stored
  before has that \<open>id\<close>, the rank is the 1-based position of the record in the list, and
  the first one at which it stands. If neither \<open>t\<close> nor a stored time is \<open>NaN\<close>, that list
  is sorted ascending by time.
\<close>

theorem rank_is_position_of_new_record:
  assumes "body \<noteq> JUndefined" and "body \<noteq> JNull"
    and "field body ''name'' = JString s" and "s \<noteq> []" and "truthy (field body ''time'')"
    and "parseFloat e (field body ''time'') = Inr t"
    and "readyState e \<noteq> 1"
  shows "\<exists>st' d rank.
           post_api_score e st body =
             (st', Inr \<lparr>status = 201,
                        json = ScoreRecorded d (Some memory) rank
                                 (length (memoryLeaderboard st'))\<rparr>)
         \<and> post_api_score_memonly e (memoryLeaderboard st) body =
             (memoryLeaderboard st',
              Inr \<lparr>status = 201,
                   json = ScoreRecorded d None rank (length (memoryLeaderboard st'))\<rparr>)
         \<and> d = \<lparr>id' = now e, name = take 20 s, time = t,
                 accuracy = js_or (field body ''accuracy'') (JNumber (Fin 100)),
                 date = isoNow e\<rparr>
         \<and> (d \<in> set (memoryLeaderboard st') \<and> (\<forall>x\<in>set (memoryLeaderboard st). id' x \<noteq> now e) \<longrightarrow>
              1 \<le> rank \<and> rank \<le> int (length (memoryLeaderboard st'))
            \<and> memoryLeaderboard st' ! nat (rank - 1) = d
            \<and> (\<forall>i<nat (rank - 1). memoryLeaderboard st' ! i \<noteq> d))
         \<and> (time d \<noteq> NaN \<and> (\<forall>x\<in>set (memoryLeaderboard st). time x \<noteq> NaN) \<longrightarrow>
              sorted_by_time (memoryLeaderboard st'))"
proof -
  define d where "d = \<lparr>id' = now e, name = take 20 s, time = t,
      accuracy = js_or (field body ''accuracy'') (JNumber (Fin 100)), date = isoNow e\<rparr>"
  define lb where "lb = take 50 (js_sort by_time (memoryLeaderboard st @ [d]))"
  define rank where "rank = findIndex (\<lambda>x. id' x = id' d) lb + 1"
  let ?st' = "st\<lparr>memoryLeaderboard := lb\<rparr>"
  have post: "post_api_score e st body =
      (?st', Inr \<lparr>status = 201, json = ScoreRecorded d (Some memory) rank (length lb)\<rparr>)"
    unfolding rank_def by (rule post_memory [OF assms d_def lb_def])
  have memonly: "post_api_score_memonly e (memoryLeaderboard st) body =
      (lb, Inr \<lparr>status = 201, json = ScoreRecorded d None rank (length lb)\<rparr>)"
    unfolding rank_def by (rule post_memonly_memory [OF assms(1-6) d_def lb_def])
  have idd: "id' d = now e" by (simp add: d_def)
  have position: "1 \<le> rank \<and> rank \<le> int (length lb) \<and> lb ! nat (rank - 1) = d
      \<and> (\<forall>i<nat (rank - 1). lb ! i \<noteq> d)"
    if stored: "d \<in> set lb" and fresh: "\<forall>x\<in>set (memoryLeaderboard st). id' x \<noteq> now e"
  proof -
    let ?k = "findIndex (\<lambda>x. id' x = id' d) lb"
    from stored have "\<exists>x\<in>set lb. id' x = id' d" by blast
    from findIndex_found [OF this]
    have k: "0 \<le> ?k" "nat ?k < length lb" "id' (lb ! nat ?k) = id' d"
      "\<forall>i<nat ?k. id' (lb ! i) \<noteq> id' d"
      by simp_all
    have "set lb \<subseteq> insert d (set (memoryLeaderboard st))"
      using take_sort_subset [of 50 by_time "memoryLeaderboard st" d]
      unfolding lb_def by (metis set_mset_mono set_mset_mset set_mset_add_mset_insert)
    moreover from k(2) have "lb ! nat ?k \<in> set lb" by simp
    ultimately have "lb ! nat ?k = d \<or> lb ! nat ?k \<in> set (memoryLeaderboard st)" by blast
    with k(3) fresh idd have "lb ! nat ?k = d" by auto
    moreover have "\<forall>i<nat ?k. lb ! i \<noteq> d" using k(4) by auto
    ultimately show ?thesis using k(1,2) by (simp add: rank_def)
  qed
  have sorted: "sorted_by_time lb"
    if "time d \<noteq> NaN" "\<forall>x\<in>set (memoryLeaderboard st). time x \<noteq> NaN"
  proof -
    from that have "\<forall>x\<in>set (memoryLeaderboard st @ [d]). time x \<noteq> NaN" by simp
    then have "sorted_by_time (js_sort by_time (memoryLeaderboard st @ [d]))"
      by (rule sorted_js_sort)
    then show ?thesis unfolding lb_def by (rule sorted_by_time_take)
  qed
  from post memonly d_def position sorted show ?thesis
    by (intro exI [of _ ?st'] exI [of _ d] exI [of _ rank]) simp
qed

theorem rank_is_position_witness:
  "post_api_score (offline 2)
      \<lparr>memoryLeaderboard =
         [\<lparr>id' = 1, name = ascii ''Al'', time = Fin 5, accuracy = JNumber (Fin 100), date = ''T''\<rparr>],
       scores = []\<rparr>
      (submission ''Bo'' (JNumber (Fin 3))) =
    (\<lparr>memoryLeaderboard =
        [\<lparr>id' = 2, name = ascii ''Bo'', time = Fin 3, accuracy = JNumber (Fin 100), date = ''T''\<rparr>,
         \<lparr>id' = 1, name = ascii ''Al'', time = Fin 5, accuracy = JNumber (Fin 100), date = ''T''\<rparr>],
      scores = []\<rparr>,
     Inr \<lparr>status = 201,
          json = ScoreRecorded
                   \<lparr>id' = 2, name = ascii ''Bo'', time = Fin 3, accuracy = JNumber (Fin 100), date = ''T''\<rparr>
                   (Some memory) 1 2\<rparr>)"
  using rank_is_position_of_new_record
    [of "submission ''Bo'' (JNumber (Fin 3))" "ascii ''Bo''" "offline 2" "Fin 3"
        "\<lparr>memoryLeaderboard =
         [\<lparr>id' = 1, name = ascii ''Al'', time = Fin 5, accuracy = JNumber (Fin 100), date = ''T''\<rparr>],
       scores = []\<rparr>"]
  by (simp add: eval_defs)

text \<open>
  C2 as stated fails: two submissions within the same millisecond get the same \<open>id\<close>, and
  the second is given the rank of the first. Bo, second in the list, is told rank 1, and
  the record at position 1 is not Bo's.
\<close>

theorem rank_wrong_on_equal_timestamps:
  "serve_scores empty_server
     [(offline 1000, submission ''Al'' (JNumber (Fin 5))),
      (offline 1000, submission ''Bo'' (JNumber (Fin 9)))] =
   (\<lparr>memoryLeaderboard =
       [\<lparr>id' = 1000, name = ascii ''Al'', time = Fin 5, accuracy = JNumber (Fin 100), date = ''T''\<rparr>,
        \<lparr>id' = 1000, name = ascii ''Bo'', time = Fin 9, accuracy = JNumber (Fin 100), date = ''T''\<rparr>],
     scores = []\<rparr>,
    [Inr \<lparr>status = 201,
          json = ScoreRecorded
                   \<lparr>id' = 1000, name = ascii ''Al'', time = Fin 5, accuracy = JNumber (Fin 100), date = ''T''\<rparr>
                   (Some memory) 1 1\<rparr>,
     Inr \<lparr>status = 201,
          json = ScoreRecorded
                   \<lparr>id' = 1000, name = ascii ''Bo'', time = Fin 9, accuracy = JNumber (Fin 100), date = ''T''\<rparr>
                   (Some memory) 1 2\<rparr>])
 \<and> [\<lparr>id' = 1000, name = ascii ''Al'', time = Fin 5, accuracy = JNumber (Fin 100), date = ''T''\<rparr>,
     \<lparr>id' = 1000, name = ascii ''Bo'', time = Fin 9, accuracy = JNumber (Fin 100), date = ''T''\<rparr>]
      ! nat (1 - 1)
    \<noteq> \<lparr>id' = 1000, name = ascii ''Bo'', time = Fin 9, accuracy = JNumber (Fin 100), date = ''T''\<rparr>"
  by (simp add: eval_defs)

text \<open>
  C3. A submission whose body has no \<open>name\<close> or no \<open>time\<close> is answered 400, the body
  listing \<open>name\<close> and \<open>time\<close> as required, and the state (both stores) is unchanged.
\<close>

theorem missing_field_rejected:
  assumes "body \<noteq> JUndefined" and "body \<noteq> JNull"
    and "field body ''name'' = JUndefined \<or> field body ''time'' = JUndefined"
  shows "post_api_score e st body =
           (st, Inr \<lparr>status = 400, json = MissingParams [''name'', ''time''] body\<rparr>)"
  using assms by (auto simp: post_api_score_def post_api_score_try_def Let_def)

theorem missing_field_rejected_witness:
  "post_api_score (offline 7) empty_server (JObject [(ascii ''name'', JString (ascii ''Al''))]) =
     (empty_server,
      Inr \<lparr>status = 400,
           json = MissingParams [''name'', ''time''] (JObject [(ascii ''name'', JString (ascii ''Al''))])\<rparr>)"
  using missing_field_rejected [of "JObject [(ascii ''name'', JString (ascii ''Al''))]" "offline 7" empty_server]
  by simp

text \<open>
  C4, at the input on which the code departs from it: an accuracy of 0 is a number in the
  range 0 to 100, yet \<open>accuracy || 100\<close> stores 100 in its place, in both storage modes.
\<close>

theorem zero_accuracy_stored_as_100:
  "post_api_score (offline 7) empty_server
      (JObject [(ascii ''name'', JString (ascii ''Al'')), (ascii ''time'', JNumber (Fin 12.5)),
                (ascii ''accuracy'', JNumber (Fin 0))]) =
     (\<lparr>memoryLeaderboard = [\<lparr>id' = 7, name = ascii ''Al'', time = Fin 12.5,
                               accuracy = JNumber (Fin 100), date = ''T''\<rparr>],
       scores = []\<rparr>,
      Inr \<lparr>status = 201,
           json = ScoreRecorded \<lparr>id' = 7, name = ascii ''Al'', time = Fin 12.5,
                               accuracy = JNumber (Fin 100), date = ''T''\<rparr> (Some memory) 1 1\<rparr>)
 \<and> post_api_score (online 7) empty_server
      (JObject [(ascii ''name'', JString (ascii ''Al'')), (ascii ''time'', JNumber (Fin 12.5)),
                (ascii ''accuracy'', JNumber (Fin 0))]) =
     (\<lparr>memoryLeaderboard = [],
       scores = [\<lparr>oid = 7, doc_name = ascii ''Al'', doc_time = Fin 12.5,
                  doc_accuracy = Fin 100, doc_date = 7\<rparr>]\<rparr>,
      Inr \<lparr>status = 201,
           json = ScoreSaved \<lparr>oid = 7, doc_name = ascii ''Al'', doc_time = Fin 12.5,
                              doc_accuracy = Fin 100, doc_date = 7\<rparr> ''T''\<rparr>)"
  by (simp add: eval_defs)

text \<open>
  C5 (as amended). Lengths are counted and names are cut in UTF-16 code units. For a
  submission with a non-empty string \<open>s\<close> as \<open>name\<close> and a truthy \<open>time\<close> that \<open>parseFloat\<close>
  converts, the name kept is \<open>take 20 s\<close>: exactly 20 code units when \<open>s\<close> has more than
  20, and \<open>s\<close> itself otherwise. In memory mode the created record carries it and is the
  only record the list can gain. In database mode the saved document returned carries it
  and the collection gains that document with the name as UTF-8 keeps it, which is the
  same name when the 20 code units hold no surrogate; when the save fails nothing is
  stored.
\<close>

theorem name_cut_to_20:
  assumes "body \<noteq> JUndefined" and "body \<noteq> JNull"
    and "field body ''name'' = JString s" and "s \<noteq> []" and "truthy (field body ''time'')"
    and "parseFloat e (field body ''time'') = Inr t"
  shows "(20 < length s \<longrightarrow> length (take 20 s) = 20)
       \<and> (length s \<le> 20 \<longrightarrow> take 20 s = s)
       \<and> ((\<forall>u\<in>set (take 20 s). \<not> is_high u \<and> \<not> is_low u) \<longrightarrow>
            to_well_formed (take 20 s) = take 20 s)
       \<and> (readyState e \<noteq> 1 \<longrightarrow>
            (\<exists>st' d rank n.
               post_api_score e st body =
                 (st', Inr \<lparr>status = 201, json = ScoreRecorded d (Some memory) rank n\<rparr>)
             \<and> name d = take 20 s
             \<and> (\<forall>x\<in>#mset (memoryLeaderboard st') - mset (memoryLeaderboard st). x = d)))
       \<and> (readyState e = 1 \<longrightarrow>
            (\<exists>d. post_api_score e st body =
                   (st\<lparr>scores := scores st @ [d\<lparr>doc_name := to_well_formed (take 20 s)\<rparr>]\<rparr>,
                    Inr \<lparr>status = 201, json = ScoreSaved d (isoNow e)\<rparr>)
                \<and> doc_name d = take 20 s)
          \<or> (\<exists>err. post_api_score e st body =
                   (st, Inr \<lparr>status = 500, json = SubmitFailed err (isoNow e)\<rparr>)))"
proof -
  have mem: "\<exists>st' d rank n.
               post_api_score e st body =
                 (st', Inr \<lparr>status = 201, json = ScoreRecorded d (Some memory) rank n\<rparr>)
             \<and> name d = take 20 s
             \<and> (\<forall>x\<in>#mset (memoryLeaderboard st') - mset (memoryLeaderboard st). x = d)"
    if off: "readyState e \<noteq> 1"
  proof -
    define d where "d = \<lparr>id' = now e, name = take 20 s, time = t,
      accuracy = js_or (field body ''accuracy'') (JNumber (Fin 100)), date = isoNow e\<rparr>"
    define lb where "lb = take 50 (js_sort by_time (memoryLeaderboard st @ [d]))"
    have "mset lb \<subseteq># add_mset d (mset (memoryLeaderboard st))"
      unfolding lb_def by (rule take_sort_subset)
    then have "mset lb - mset (memoryLeaderboard st) \<subseteq># {#d#}"
      by (simp add: subset_eq_diff_conv)
    then have "\<forall>x\<in>#mset lb - mset (memoryLeaderboard st). x = d"
      by (metis mset_subset_eqD singleton_iff set_mset_add_mset_insert set_mset_empty)
    with post_memory [OF assms off d_def lb_def] show ?thesis
      by (auto simp: d_def)
  qed
  have mongo: "(\<exists>d. post_api_score e st body =
                   (st\<lparr>scores := scores st @ [d\<lparr>doc_name := to_well_formed (take 20 s)\<rparr>]\<rparr>,
                    Inr \<lparr>status = 201, json = ScoreSaved d (isoNow e)\<rparr>)
                \<and> doc_name d = take 20 s)
          \<or> (\<exists>err. post_api_score e st body =
                   (st, Inr \<lparr>status = 500, json = SubmitFailed err (isoNow e)\<rparr>))"
    if on: "readyState e = 1"
  proof (cases "save e (scores st) (take 20 s) t
                   (js_or (field body ''accuracy'') (JNumber (Fin 100)))")
    case (Inl err)
    with post_mongo [OF assms on, of st] show ?thesis by simp
  next
    case (Inr p)
    obtain db d where p: "p = (db, d)" by (cases p)
    from save_Inr [OF Inr [unfolded p]]
    have "db = scores st @ [d\<lparr>doc_name := to_well_formed (take 20 s)\<rparr>]" "doc_name d = take 20 s"
      by simp_all
    with post_mongo [OF assms on, of st] Inr p show ?thesis by simp
  qed
  from mem mongo show ?thesis by (simp add: to_well_formed_id)
qed

theorem name_cut_to_20_witness:
  "post_api_score (online 3) empty_server
      (submission ''Bartholomew-the-Quick-Typist'' (JNumber (Fin 12.5))) =
     (\<lparr>memoryLeaderboard = [],
       scores = [\<lparr>oid = 3, doc_name = ascii ''Bartholomew-the-Quic'', doc_time = Fin 12.5,
                  doc_accuracy = Fin 100, doc_date = 3\<rparr>]\<rparr>,
      Inr \<lparr>status = 201,
           json = ScoreSaved \<lparr>oid = 3, doc_name = ascii ''Bartholomew-the-Quic'', doc_time = Fin 12.5,
                              doc_accuracy = Fin 100, doc_date = 3\<rparr> ''T''\<rparr>)
 \<and> post_api_score (offline 3) empty_server
      (submission ''Bartholomew-the-Quick-Typist'' (JNumber (Fin 12.5))) =
     (\<lparr>memoryLeaderboard = [\<lparr>id' = 3, name = ascii ''Bartholomew-the-Quic'', time = Fin 12.5,
                               accuracy = JNumber (Fin 100), date = ''T''\<rparr>],
       scores = []\<rparr>,
      Inr \<lparr>status = 201,
           json = ScoreRecorded \<lparr>id' = 3, name = ascii ''Bartholomew-the-Quic'', time = Fin 12.5,
                               accuracy = JNumber (Fin 100), date = ''T''\<rparr> (Some memory) 1 1\<rparr>)"
  using name_cut_to_20 [of "submission ''Bartholomew-the-Quick-Typist'' (JNumber (Fin 12.5))"
      "ascii ''Bartholomew-the-Quick-Typist''" "online 3" "Fin 12.5" empty_server]
  by (simp add: eval_defs)

text \<open>
  C5 as stated fails where characters and code units part. A name of 19 letters and one
  emoji has 20 characters and 21 code units: it is not stored unchanged, but cut between
  the two halves of the emoji's surrogate pair.
\<close>

theorem emoji_name_cut_inside_pair:
  "characters (ascii ''abcdefghijklmnopqrs'' @ [0xD83D, 0xDE00]) = 20
 \<and> post_api_score (offline 3) empty_server
      (JObject [(ascii ''name'', JString (ascii ''abcdefghijklmnopqrs'' @ [0xD83D, 0xDE00])),
                (ascii ''time'', JNumber (Fin 12.5))]) =
     (\<lparr>memoryLeaderboard =
         [\<lparr>id' = 3, name = ascii ''abcdefghijklmnopqrs'' @ [0xD83D], time = Fin 12.5,
           accuracy = JNumber (Fin 100), date = ''T''\<rparr>],
       scores = []\<rparr>,
      Inr \<lparr>status = 201,
           json = ScoreRecorded
                    \<lparr>id' = 3, name = ascii ''abcdefghijklmnopqrs'' @ [0xD83D], time = Fin 12.5,
                      accuracy = JNumber (Fin 100), date = ''T''\<rparr>
                    (Some memory) 1 1\<rparr>)
 \<and> ascii ''abcdefghijklmnopqrs'' @ [0xD83D]
     \<noteq> ascii ''abcdefghijklmnopqrs'' @ [0xD83D, 0xDE00]"
  by (simp add: eval_defs ascii_def is_high_def is_low_def)



text \<open>
  C7. In memory mode, whatever the in-memory list holds, a clear followed by a read
  returns the empty list, count 0 and the message "no records yet".
\<close>

theorem clear_then_read:
  assumes "readyState e1 \<noteq> 1" and "readyState e2 \<noteq> 1"
  shows "snd (delete_api_leaderboard e1 st) =
           Inr \<lparr>status = 200, json = Cleared memory (isoNow e1)\<rparr>
       \<and> get_api_leaderboard e2 (fst (delete_api_leaderboard e1 st)) =
           (fst (delete_api_leaderboard e1 st),
            Inr \<lparr>status = 200, json = LeaderboardMemory [] 0 (isoNow e2) NoRecordsYet\<rparr>)"
  using assms
  by (simp add: get_api_leaderboard_def get_api_leaderboard_try_def
        delete_api_leaderboard_def delete_api_leaderboard_try_def)

theorem clear_then_read_witness:
  "get_api_leaderboard (offline 61) (fst (delete_api_leaderboard (offline 60) fifty_players)) =
     (empty_server,
      Inr \<lparr>status = 200, json = LeaderboardMemory [] 0 ''T'' NoRecordsYet\<rparr>)"
  using clear_then_read [of "offline 60" "offline 61" fifty_players]
  by (simp add: offline_def empty_server_def fifty_players_eq
        delete_api_leaderboard_def delete_api_leaderboard_try_def del: upt_Suc)

text \<open>
  C8 (as amended). In memory mode a read leaves the state as it is and a clear changes
  nothing but the list, which it empties. A submission that creates no record leaves the
  state as it is. A submission that creates a record changes no stored record: every
  record in the list afterwards was in it before or is the record just created, and the
  list holds \<open>min 50 (n + 1)\<close> records where it held \<open>n\<close>. So while fewer than 50 records are
  stored it removes none; with 50 stored, the trim leaves out exactly one of the 51
  records, the stored ones and the new one, and when no time is \<open>NaN\<close> its time is at least
  that of every record kept. The database documents are not touched.
\<close>

theorem records_leave_only_by_trim_or_clear:
  assumes "readyState e \<noteq> 1"
  shows "fst (get_api_leaderboard e st) = st
       \<and> fst (delete_api_leaderboard e st) = st\<lparr>memoryLeaderboard := []\<rparr>
       \<and> (recorded [snd (post_api_score e st body)] = [] \<longrightarrow>
            fst (post_api_score e st body) = st)
       \<and> (\<forall>d. recorded [snd (post_api_score e st body)] = [d] \<longrightarrow>
              scores (fst (post_api_score e st body)) = scores st
            \<and> mset (memoryLeaderboard (fst (post_api_score e st body)))
                 \<subseteq># add_mset d (mset (memoryLeaderboard st))
            \<and> length (memoryLeaderboard (fst (post_api_score e st body)))
                 = min 50 (Suc (length (memoryLeaderboard st)))
            \<and> (length (memoryLeaderboard st) < 50 \<longrightarrow>
                 mset (memoryLeaderboard (fst (post_api_score e st body)))
                   = add_mset d (mset (memoryLeaderboard st)))
            \<and> (length (memoryLeaderboard st) = 50 \<longrightarrow>
                 (\<exists>x. add_mset x (mset (memoryLeaderboard (fst (post_api_score e st body))))
                        = add_mset d (mset (memoryLeaderboard st))
                    \<and> ((\<forall>y\<in>set (memoryLeaderboard st @ [d]). time y \<noteq> NaN) \<longrightarrow>
                         (\<forall>s\<in>set (memoryLeaderboard (fst (post_api_score e st body))).
                            js_le (time s) (time x))))))"
proof -
  obtain st' out where post: "post_api_score e st body = (st', out)"
    by (cases "post_api_score e st body")
  from post_api_score_memory_cases [OF assms post]
  consider (same) "st' = st" "recorded [out] = []"
    | (new) d where "recorded [out] = [d]"
        "memoryLeaderboard st' = take 50 (js_sort by_time (memoryLeaderboard st @ [d]))"
        "scores st' = scores st"
    by auto
  then have "(recorded [out] = [] \<longrightarrow> st' = st)
       \<and> (\<forall>d. recorded [out] = [d] \<longrightarrow>
              scores st' = scores st
            \<and> mset (memoryLeaderboard st') \<subseteq># add_mset d (mset (memoryLeaderboard st))
            \<and> length (memoryLeaderboard st') = min 50 (Suc (length (memoryLeaderboard st)))
            \<and> (length (memoryLeaderboard st) < 50 \<longrightarrow>
                 mset (memoryLeaderboard st') = add_mset d (mset (memoryLeaderboard st)))
            \<and> (length (memoryLeaderboard st) = 50 \<longrightarrow>
                 (\<exists>x. add_mset x (mset (memoryLeaderboard st'))
                        = add_mset d (mset (memoryLeaderboard st))
                    \<and> ((\<forall>y\<in>set (memoryLeaderboard st @ [d]). time y \<noteq> NaN) \<longrightarrow>
                         (\<forall>s\<in>set (memoryLeaderboard st'). js_le (time s) (time x))))))"
  proof cases
    case same
    then show ?thesis by simp
  next
    case new
    have "mset (memoryLeaderboard st') \<subseteq># add_mset d (mset (memoryLeaderboard st))"
      unfolding new(2) by (rule take_sort_subset)
    moreover have "length (memoryLeaderboard st') = min 50 (Suc (length (memoryLeaderboard st)))"
      unfolding new(2) by (simp add: length_js_sort)
    moreover have "mset (memoryLeaderboard st') = add_mset d (mset (memoryLeaderboard st))"
      if "length (memoryLeaderboard st) < 50"
      using that unfolding new(2) by (simp add: length_js_sort mset_js_sort)
    moreover have "\<exists>x. add_mset x (mset (memoryLeaderboard st')) = add_mset d (mset (memoryLeaderboard st))
                  \<and> ((\<forall>y\<in>set (memoryLeaderboard st @ [d]). time y \<noteq> NaN) \<longrightarrow>
                       (\<forall>s\<in>set (memoryLeaderboard st'). js_le (time s) (time x)))"
      if "length (memoryLeaderboard st) = 50"
      using that new(2) by (rule trim_drops_last)
    ultimately show ?thesis using new(1,3) by simp
  qed
  moreover have "fst (get_api_leaderboard e st) = st"
    using assms by (simp add: get_api_leaderboard_def get_api_leaderboard_try_def)
  moreover have "fst (delete_api_leaderboard e st) = st\<lparr>memoryLeaderboard := []\<rparr>"
    using assms by (simp add: delete_api_leaderboard_def delete_api_leaderboard_try_def)
  ultimately show ?thesis using post by simp
qed

theorem records_leave_only_by_trim_or_clear_witness:
  "mset (memoryLeaderboard (fst (post_api_score (offline 2)
      \<lparr>memoryLeaderboard = [player 1], scores = []\<rparr>
      (submission ''Bo'' (JNumber (Fin 3))))))
   = {#player 1,
       \<lparr>id' = 2, name = ascii ''Bo'', time = Fin 3, accuracy = JNumber (Fin 100), date = ''T''\<rparr>#}"
  using records_leave_only_by_trim_or_clear
    [of "offline 2" "\<lparr>memoryLeaderboard = [player 1], scores = []\<rparr>"
        "submission ''Bo'' (JNumber (Fin 3))"]
  by (simp add: eval_defs player_def)

text \<open>
  C8 as stated fails: with 50 records stored, a submission faster than all of them removes
  the slowest stored record. Player 50 is in the list before the submission of the time
  0.5 and not after it.
\<close>

theorem submit_trims_an_existing_record:
  "player 50 \<in> set (memoryLeaderboard fifty_players)
 \<and> player 50 \<notin> set (memoryLeaderboard
       (fst (post_api_score (offline 99) fifty_players (submission ''q'' (JNumber (Fin 0.5))))))"
proof -
  let ?body = "submission ''q'' (JNumber (Fin 0.5))"
  define d where "d = \<lparr>id' = now (offline 99), name = take 20 (ascii ''q''),
      time = Fin 0.5,
      accuracy = js_or (field ?body ''accuracy'') (JNumber (Fin 100)),
      date = isoNow (offline 99)\<rparr>"
  have td: "time d = Fin 0.5" and idd: "id' d = 99"
    by (simp_all add: d_def submission_def offline_def)
  have "js_sort by_time (map player [1..<51] @ [d]) = d # map player [1..<51]"
    by (rule js_sort_append_first [OF sorted_players]) (auto simp: player_def td)
  then have lb: "d # map player [1..<50] =
      take 50 (js_sort by_time (memoryLeaderboard fifty_players @ [d]))"
    by (simp add: fifty_players_eq take_map del: upt_Suc)
  have "post_api_score (offline 99) fifty_players ?body =
      (fifty_players\<lparr>memoryLeaderboard := d # map player [1..<50]\<rparr>,
       Inr \<lparr>status = 201,
            json = ScoreRecorded d (Some memory)
              (findIndex (\<lambda>x. id' x = id' d) (d # map player [1..<50]) + 1)
              (length (d # map player [1..<50]))\<rparr>)"
    by (rule post_memory [OF _ _ _ _ _ _ _ d_def lb]) (simp_all add: submission_def offline_def)
  then have "memoryLeaderboard (fst (post_api_score (offline 99) fifty_players ?body))
      = d # map player [1..<50]"
    by simp
  moreover have "player 50 \<noteq> d"
    using idd by (auto simp: player_def)
  moreover have "player 50 \<notin> set (map player [1..<50])"
    by (auto simp: player_def)
  moreover have "player 50 \<in> set (memoryLeaderboard fifty_players)"
    by (simp add: fifty_players_eq del: upt_Suc)
  ultimately show ?thesis by simp
qed

text \<open>
  C9. Every request to one of the three endpoints is answered, and no exception leaves a
  handler to end the process. A request whose body was parsed is answered by its handler
  with the response computed above: 201, 400 or 500 for a submission, 200 or 500 for a
  read or a clear; whenever the body of the \<open>try\<close> block throws, the \<open>catch\<close> block answers
  500 with a JSON body carrying the error's message. A request whose body the parser
  refuses is answered 500 by the error-handling middleware, and the state stays as it is.
\<close>

theorem handlers_total:
  "(\<exists>st' r. app e PostScore p st = (st', Answered r) \<and> status r \<in> {201, 400, 500}
     \<and> (\<forall>body. p = Parsed body \<longrightarrow> post_api_score e st body = (st', Inr r))
     \<and> (\<forall>body err w. p = Parsed body \<and> app_post_score_try e body (st, None) = (Inl err, w) \<longrightarrow>
           r = \<lparr>status = 500, json = SubmitFailed err (isoNow e)\<rparr>)
     \<and> (p = Malformed \<longrightarrow>
           st' = st \<and>
           r = \<lparr>status = 500, json = ServerError SyntaxError (isoNow e) (\<not> production e)\<rparr>))
 \<and> (\<exists>st' r. app e GetLeaderboard p st = (st', Answered r) \<and> status r \<in> {200, 500}
     \<and> (\<forall>body. p = Parsed body \<longrightarrow> get_api_leaderboard e st = (st', Inr r))
     \<and> (\<forall>body err w. p = Parsed body \<and> app_get_leaderboard_try e (st, None) = (Inl err, w) \<longrightarrow>
           r = \<lparr>status = 500, json = LoadFailed err (isoNow e)\<rparr>)
     \<and> (p = Malformed \<longrightarrow>
           st' = st \<and>
           r = \<lparr>status = 500, json = ServerError SyntaxError (isoNow e) (\<not> production e)\<rparr>))
 \<and> (\<exists>st' r. app e DeleteLeaderboard p st = (st', Answered r) \<and> status r \<in> {200, 500}
     \<and> (\<forall>body. p = Parsed body \<longrightarrow> delete_api_leaderboard e st = (st', Inr r))
     \<and> (\<forall>body err w. p = Parsed body \<and> app_delete_leaderboard_try e (st, None) = (Inl err, w) \<longrightarrow>
           r = \<lparr>status = 500, json = ClearFailed err (isoNow e)\<rparr>)
     \<and> (p = Malformed \<longrightarrow>
           st' = st \<and>
           r = \<lparr>status = 500, json = ServerError SyntaxError (isoNow e) (\<not> production e)\<rparr>))"
  using app_post_total [of e p st] app_get_total [of e p st] app_delete_total [of e p st]
  by (intro conjI)

text \<open>
  A name that is a number has no \<open>substring\<close>: the TypeError is answered with 500 by the
  \<open>catch\<close> block. Malformed JSON is answered with 500 by the error-handling middleware.
\<close>

theorem handlers_total_witness:
  "app (offline 5) PostScore
      (Parsed (JObject [(ascii ''name'', JNumber (Fin 42)), (ascii ''time'', JNumber (Fin 12.5))]))
      empty_server =
     (empty_server, Answered \<lparr>status = 500, json = SubmitFailed TypeError ''T''\<rparr>)
 \<and> app (offline 5) PostScore Malformed empty_server =
     (empty_server, Answered \<lparr>status = 500, json = ServerError SyntaxError ''T'' True\<rparr>)"
  using handlers_total
    [of "offline 5"
        "Parsed (JObject [(ascii ''name'', JNumber (Fin 42)), (ascii ''time'', JNumber (Fin 12.5))])"
        empty_server]
    handlers_total [of "offline 5" Malformed empty_server]
  by (simp add: eval_defs app_def express_json_def route_def error_middleware_def finish_def
        app_post_score_def app_post_score_try_def js_defs)

text \<open>
  C10. Presence is tested by truthiness: a body whose \<open>name\<close> is the empty string, or
  whose \<open>time\<close> is the number 0, is answered 400 like a body without the field, by the
  handler of server.js and by the handler of the memory-only file, and nothing is stored.
\<close>

theorem falsy_field_rejected:
  assumes "body \<noteq> JUndefined" and "body \<noteq> JNull"
    and "field body ''name'' = JString [] \<or> field body ''time'' = JNumber (Fin 0)"
  shows "post_api_score e st body =
           (st, Inr \<lparr>status = 400, json = MissingParams [''name'', ''time''] body\<rparr>)
       \<and> post_api_score_memonly e lb body =
           (lb, Inr \<lparr>status = 400, json = MissingParams [''name'', ''time''] body\<rparr>)"
  using assms
  by (auto simp: post_api_score_def post_api_score_try_def
        post_api_score_memonly_def post_api_score_memonly_try_def Let_def)

theorem falsy_field_rejected_witness:
  "post_api_score (offline 7) empty_server
       (JObject [(ascii ''name'', JString (ascii ''Al'')), (ascii ''time'', JNumber (Fin 0))]) =
     (empty_server,
      Inr \<lparr>status = 400,
           json = MissingParams [''name'', ''time'']
                    (JObject [(ascii ''name'', JString (ascii ''Al'')), (ascii ''time'', JNumber (Fin 0))])\<rparr>)"
  using falsy_field_rejected
    [of "JObject [(ascii ''name'', JString (ascii ''Al'')), (ascii ''time'', JNumber (Fin 0))]" "offline 7" empty_server "[]"]
  by simp

end
